theory Spec2Isabelle
  imports Main
begin

section \<open>Resource model (package validator)\<close>

text \<open>
  Go strings are byte sequences; \<^typ>\<open>string\<close> is a list of 8-bit characters. The
  patterns used by the validator mention ASCII bytes only, so matching bytes and matching
  UTF-8 runes agree.
\<close>

record stringEl =
  string_Name :: string
  string_Value :: string

record pluralItemEl =
  item_Quantity :: string
  item_Value :: string

record pluralEl =
  plural_Name :: string
  plural_Items :: "pluralItemEl list"

record stringArrayEl =
  array_Name :: string
  array_Items :: "string list"

record resourcesEl =
  Strings :: "stringEl list"
  Plurals :: "pluralEl list"
  StringArrays :: "stringArrayEl list"

text \<open>
  The values of Go's \<open>error\<close> interface that occur in the package: the two error
  structs it declares, the value of \<open>errors.New\<close>, and an error handed back by a
  library call (file system, XML decoder, glob).
\<close>

datatype error =
    ResourceMissingError string
  | ValidationError string
  | ErrorString string
  | LibraryError string

fun Error :: "error \<Rightarrow> string" where
  "Error (ResourceMissingError msg) = msg"
| "Error (ValidationError msg) = msg"
| "Error (ErrorString msg) = msg"
| "Error (LibraryError msg) = msg"

text \<open>A run-time panic of the Go program; nothing in the repository recovers from one.\<close>

datatype panic = IndexOutOfRange

text \<open>Slice indexing \<open>xs[i]\<close>: panics when \<open>i\<close> is not below \<open>len(xs)\<close>.\<close>

definition index :: "'a list \<Rightarrow> nat \<Rightarrow> panic + 'a" where
  "index xs i = (if i < length xs then Inr (xs ! i) else Inl IndexOutOfRange)"

type_synonym comparisonValidation = "string \<Rightarrow> string \<Rightarrow> panic + error option"

type_synonym simpleValidation = "string \<Rightarrow> error option"

section \<open>Formatting\<close>

text \<open>The verb \<open>%d\<close> of \<open>fmt.Sprintf\<close> on a non-negative \<open>int\<close>.\<close>

definition digit :: "nat \<Rightarrow> char" where
  "digit d = char_of (48 + d)"

fun showNat :: "nat \<Rightarrow> string" where
  "showNat n = (if n < 10 then [digit n] else showNat (n div 10) @ [digit (n mod 10)])"

declare showNat.simps [simp del]

section \<open>The compiled patterns\<close>

definition isLetter :: "char \<Rightarrow> bool" where
  "isLetter c = (let n = (of_char c :: nat) in (97 \<le> n \<and> n \<le> 122) \<or> (65 \<le> n \<and> n \<le> 90))"

definition isDigit :: "char \<Rightarrow> bool" where
  "isDigit c = (let n = (of_char c :: nat) in 48 \<le> n \<and> n \<le> 57)"

text \<open>The class \<open>\s\<close> of Go's regexp syntax: tab, newline, form feed, carriage return, space.\<close>

definition isSpace :: "char \<Rightarrow> bool" where
  "isSpace c = (let n = (of_char c :: nat) in n = 9 \<or> n = 10 \<or> n = 12 \<or> n = 13 \<or> n = 32)"

definition percent :: char where
  "percent = CHR 0x25"

definition dollar :: char where
  "dollar = CHR 0x24"

definition newline :: char where
  "newline = CHR 0x0A"

text \<open>
  \<open>FindAllStringSubmatch(s, -1)\<close> returns the successive non-overlapping leftmost matches;
  each match is the slice of the whole match followed by the text of group 1. In all four
  patterns the group encloses the whole pattern, so both are the same text.

  \<open>SimplePlaceholderRegex\<close> is \<open>(\%[a-zA-Z])\<close>.
\<close>

fun SimplePlaceholderRegex_FindAllStringSubmatch :: "string \<Rightarrow> string list list" where
  "SimplePlaceholderRegex_FindAllStringSubmatch (c # d # rest) =
     (if c = percent \<and> isLetter d
      then [[c, d], [c, d]] # SimplePlaceholderRegex_FindAllStringSubmatch rest
      else SimplePlaceholderRegex_FindAllStringSubmatch (d # rest))"
| "SimplePlaceholderRegex_FindAllStringSubmatch _ = []"

text \<open>
  \<open>PositionalPlaceholderRegex\<close> is \<open>(\%[0-9]+\$[a-zA-Z])\<close>. The digits are taken
  greedily; what has to follow them is not a digit, so no shorter run of digits can match.
\<close>

function PositionalPlaceholderRegex_FindAllStringSubmatch :: "string \<Rightarrow> string list list" where
  "PositionalPlaceholderRegex_FindAllStringSubmatch [] = []"
| "PositionalPlaceholderRegex_FindAllStringSubmatch (c # rest) =
     (if c = percent \<and> takeWhile isDigit rest \<noteq> []
      then (case dropWhile isDigit rest of
              d # l # rest' \<Rightarrow>
                (if d = dollar \<and> isLetter l
                 then (let tok = c # takeWhile isDigit rest @ [d, l]
                       in [tok, tok] # PositionalPlaceholderRegex_FindAllStringSubmatch rest')
                 else PositionalPlaceholderRegex_FindAllStringSubmatch rest)
            | _ \<Rightarrow> PositionalPlaceholderRegex_FindAllStringSubmatch rest)
      else PositionalPlaceholderRegex_FindAllStringSubmatch rest)"
  by pat_completeness auto
termination
proof (relation "measure length")
  fix c :: char and rest x21 x22 x31 x32
  assume "dropWhile isDigit rest = x21 # x22" "x22 = x31 # x32"
  then have "length (dropWhile isDigit rest) = Suc (Suc (length x32))" by simp
  moreover have "length (dropWhile isDigit rest) \<le> length rest" by (rule length_dropWhile_le)
  ultimately show "(x32, c # rest) \<in> measure length" by simp
qed auto

text \<open>\<open>PotentialPlaceholderRegex\<close> is \<open>(\%\s)\<close>.\<close>

fun PotentialPlaceholderRegex_FindAllStringSubmatch :: "string \<Rightarrow> string list list" where
  "PotentialPlaceholderRegex_FindAllStringSubmatch (c # d # rest) =
     (if c = percent \<and> isSpace d
      then [[c, d], [c, d]] # PotentialPlaceholderRegex_FindAllStringSubmatch rest
      else PotentialPlaceholderRegex_FindAllStringSubmatch (d # rest))"
| "PotentialPlaceholderRegex_FindAllStringSubmatch _ = []"

text \<open>\<open>NewLineRegex\<close> is the one-character pattern of a newline.\<close>

fun NewLineRegex_FindAllStringSubmatch :: "string \<Rightarrow> string list list" where
  "NewLineRegex_FindAllStringSubmatch [] = []"
| "NewLineRegex_FindAllStringSubmatch (c # rest) =
     (if c = newline
      then [[c], [c]] # NewLineRegex_FindAllStringSubmatch rest
      else NewLineRegex_FindAllStringSubmatch rest)"

text \<open>
  \<open>NewLineRegex.ReplaceAllString(s, "\\n")\<close>: every newline becomes a backslash followed
  by the letter n (the replacement text holds no \<open>$\<close>, so it is taken literally).
\<close>

fun NewLineRegex_ReplaceAllString :: "string \<Rightarrow> string \<Rightarrow> string" where
  "NewLineRegex_ReplaceAllString [] repl = []"
| "NewLineRegex_ReplaceAllString (c # rest) repl =
     (if c = newline
      then repl @ NewLineRegex_ReplaceAllString rest repl
      else c # NewLineRegex_ReplaceAllString rest repl)"

definition backslash_n :: string where
  "backslash_n = [CHR 0x5C, CHR ''n'']"

definition quote :: string where
  "quote = [CHR 0x27]"

section \<open>The comparison rules\<close>

definition countMismatch :: "nat \<Rightarrow> nat \<Rightarrow> error" where
  "countMismatch targetMatchesCount baseMatchesCount =
     ErrorString (''The target string has '' @ showNat targetMatchesCount
       @ '' placeholder(s), while it should probably have '' @ showNat baseMatchesCount)"

definition tokenMismatch :: "nat \<Rightarrow> string \<Rightarrow> string \<Rightarrow> error" where
  "tokenMismatch i actual expected =
     ErrorString (''The target string placeholder #'' @ showNat i @ '' is '' @ actual
       @ '', while it probably should be '' @ expected)"

text \<open>The loop \<open>for i, match := range baseMatches\<close> of \<open>validateSimplePlaceholders\<close>.\<close>

fun validateSimplePlaceholders_loop ::
  "nat \<Rightarrow> string list list \<Rightarrow> string list list \<Rightarrow> panic + error option" where
  "validateSimplePlaceholders_loop i [] targetMatches = Inr None"
| "validateSimplePlaceholders_loop i (match # rest) targetMatches =
     (case index targetMatches i of
        Inl p \<Rightarrow> Inl p
      | Inr targetMatch \<Rightarrow>
          (case index match 1 of
             Inl p \<Rightarrow> Inl p
           | Inr m1 \<Rightarrow>
               (case index targetMatch 1 of
                  Inl p \<Rightarrow> Inl p
                | Inr t1 \<Rightarrow>
                    if m1 \<noteq> t1 then Inr (Some (tokenMismatch i t1 m1))
                    else validateSimplePlaceholders_loop (Suc i) rest targetMatches)))"

definition validateSimplePlaceholders :: comparisonValidation where
  "validateSimplePlaceholders baseElemString validatedElemString =
     (let baseMatches = SimplePlaceholderRegex_FindAllStringSubmatch baseElemString;
          targetMatches = SimplePlaceholderRegex_FindAllStringSubmatch validatedElemString;
          baseMatchesCount = length baseMatches;
          targetMatchesCount = length targetMatches
      in if baseMatchesCount = 0 \<and> targetMatchesCount = 0 then Inr None
         else if baseMatchesCount \<noteq> targetMatchesCount
           then Inr (Some (countMismatch targetMatchesCount baseMatchesCount))
         else validateSimplePlaceholders_loop 0 baseMatches targetMatches)"

text \<open>
  The inner loop \<open>for _, tmatch := range targetMatches\<close> of
  \<open>validatePositionalPlaceholders\<close>; \<open>foundMatch\<close> starts as the nil slice (\<open>None\<close>).
\<close>

fun validatePositionalPlaceholders_find ::
  "string list \<Rightarrow> string list list \<Rightarrow> string list option \<Rightarrow> panic + string list option" where
  "validatePositionalPlaceholders_find match [] foundMatch = Inr foundMatch"
| "validatePositionalPlaceholders_find match (tmatch # rest) foundMatch =
     (case index match 1 of
        Inl p \<Rightarrow> Inl p
      | Inr m1 \<Rightarrow>
          (case index tmatch 1 of
             Inl p \<Rightarrow> Inl p
           | Inr t1 \<Rightarrow>
               validatePositionalPlaceholders_find match rest
                 (if m1 = t1 then Some tmatch else foundMatch)))"

text \<open>
  The outer loop. When no target match was found, the message is built from
  \<open>foundMatch[1]\<close>, an index into the nil slice.
\<close>

fun validatePositionalPlaceholders_loop ::
  "nat \<Rightarrow> string list list \<Rightarrow> string list list \<Rightarrow> panic + error option" where
  "validatePositionalPlaceholders_loop i [] targetMatches = Inr None"
| "validatePositionalPlaceholders_loop i (match # rest) targetMatches =
     (case validatePositionalPlaceholders_find match targetMatches None of
        Inl p \<Rightarrow> Inl p
      | Inr None \<Rightarrow>
          (case index [] 1 of
             Inl p \<Rightarrow> Inl p
           | Inr f1 \<Rightarrow>
               (case index match 1 of
                  Inl p \<Rightarrow> Inl p
                | Inr m1 \<Rightarrow> Inr (Some (tokenMismatch i f1 m1))))
      | Inr (Some foundMatch) \<Rightarrow>
          validatePositionalPlaceholders_loop (Suc i) rest targetMatches)"

definition validatePositionalPlaceholders :: comparisonValidation where
  "validatePositionalPlaceholders baseElemString validatedElemString =
     (let baseMatches = PositionalPlaceholderRegex_FindAllStringSubmatch baseElemString;
          targetMatches = PositionalPlaceholderRegex_FindAllStringSubmatch validatedElemString;
          baseMatchesCount = length baseMatches;
          targetMatchesCount = length targetMatches
      in if baseMatchesCount = 0 \<and> targetMatchesCount = 0 then Inr None
         else if baseMatchesCount \<noteq> targetMatchesCount
           then Inr (Some (countMismatch targetMatchesCount baseMatchesCount))
         else validatePositionalPlaceholders_loop 0 baseMatches targetMatches)"

section \<open>The single-value rules\<close>

definition validatePotentialPlaceholder :: simpleValidation where
  "validatePotentialPlaceholder elemValue =
     (let matches = PotentialPlaceholderRegex_FindAllStringSubmatch elemValue
      in if length matches > 0
         then Some (ErrorString (''Value '' @ quote
                @ NewLineRegex_ReplaceAllString elemValue backslash_n
                @ quote @ '' has a potential placeholder''))
         else None)"

definition validateNewlineCharacters :: simpleValidation where
  "validateNewlineCharacters elemValue =
     (let matches = NewLineRegex_FindAllStringSubmatch elemValue
      in if length matches > 0
         then Some (ErrorString (''The following line must not have a newline character: '' @ quote
                @ NewLineRegex_ReplaceAllString elemValue backslash_n @ quote))
         else None)"

section \<open>Validating one document against the base document\<close>

fun findStringElement_loop :: "stringEl list \<Rightarrow> string \<Rightarrow> stringEl option" where
  "findStringElement_loop [] name = None"
| "findStringElement_loop (el # rest) name =
     (if string_Name el = name then Some el else findStringElement_loop rest name)"

definition findStringElement :: "resourcesEl \<Rightarrow> string \<Rightarrow> stringEl option" where
  "findStringElement resources name = findStringElement_loop (Strings resources) name"

fun findStringArrayElement_loop :: "stringArrayEl list \<Rightarrow> string \<Rightarrow> stringArrayEl option" where
  "findStringArrayElement_loop [] name = None"
| "findStringArrayElement_loop (el # rest) name =
     (if array_Name el = name then Some el else findStringArrayElement_loop rest name)"

definition findStringArrayElement :: "resourcesEl \<Rightarrow> string \<Rightarrow> stringArrayEl option" where
  "findStringArrayElement resources name = findStringArrayElement_loop (StringArrays resources) name"

definition comparisonValidationFuncs :: "comparisonValidation list" where
  "comparisonValidationFuncs = [validateSimplePlaceholders, validatePositionalPlaceholders]"

definition simpleValidationFuncs :: "simpleValidation list" where
  "simpleValidationFuncs = [validatePotentialPlaceholder, validateNewlineCharacters]"

text \<open>The message \<open>"%s in %s: %s"\<close> wrapped into a \<open>ValidationError\<close>.\<close>

definition valError :: "string \<Rightarrow> string \<Rightarrow> error \<Rightarrow> error" where
  "valError name shortPath err = ValidationError (name @ '' in '' @ shortPath @ '': '' @ Error err)"

definition missingError :: "string \<Rightarrow> string \<Rightarrow> error" where
  "missingError name shortPath =
     ResourceMissingError (''[missing] element named '' @ name @ '' in '' @ shortPath)"

text \<open>The inner loop \<open>for _, baseElem := range baseResources.Strings\<close> that sets \<open>hasBaseValue\<close>.\<close>

fun hasBaseValue :: "stringEl \<Rightarrow> stringEl list \<Rightarrow> bool" where
  "hasBaseValue validatedElem [] = False"
| "hasBaseValue validatedElem (baseElem # rest) =
     (if string_Name validatedElem = string_Name baseElem then True
      else hasBaseValue validatedElem rest)"

text \<open>The first loop of \<open>validateResources\<close>, over the strings of the validated document.\<close>

fun validateResources_orphans ::
  "stringEl list \<Rightarrow> resourcesEl \<Rightarrow> string \<Rightarrow> error list \<Rightarrow> error list" where
  "validateResources_orphans [] baseResources shortPath errorList = errorList"
| "validateResources_orphans (validatedElem # rest) baseResources shortPath errorList =
     validateResources_orphans rest baseResources shortPath
       (if \<not> hasBaseValue validatedElem (Strings baseResources)
        then errorList @ [ValidationError (string_Name validatedElem @ '' in '' @ shortPath
                            @ '' does not have a base value.'')]
        else errorList)"

text \<open>
  The loops \<open>for _, fn := range comparisonValidationFuncs\<close> and
  \<open>for _, fn := range simpleValidationFuncs\<close>; \<open>name\<close> is the entry name put into the
  message. A panic inside a rule ends the whole call.
\<close>

fun comparisonFuncs_loop ::
  "comparisonValidation list \<Rightarrow> string \<Rightarrow> string \<Rightarrow> string \<Rightarrow> string \<Rightarrow> error list
     \<Rightarrow> panic + error list" where
  "comparisonFuncs_loop [] name shortPath baseValue validatedValue errorList = Inr errorList"
| "comparisonFuncs_loop (fn # fns) name shortPath baseValue validatedValue errorList =
     (case fn baseValue validatedValue of
        Inl p \<Rightarrow> Inl p
      | Inr None \<Rightarrow> comparisonFuncs_loop fns name shortPath baseValue validatedValue errorList
      | Inr (Some err) \<Rightarrow>
          comparisonFuncs_loop fns name shortPath baseValue validatedValue
            (errorList @ [valError name shortPath err]))"

fun simpleFuncs_loop ::
  "simpleValidation list \<Rightarrow> string \<Rightarrow> string \<Rightarrow> string \<Rightarrow> error list \<Rightarrow> error list" where
  "simpleFuncs_loop [] name shortPath validatedValue errorList = errorList"
| "simpleFuncs_loop (fn # fns) name shortPath validatedValue errorList =
     (case fn validatedValue of
        None \<Rightarrow> simpleFuncs_loop fns name shortPath validatedValue errorList
      | Some err \<Rightarrow>
          simpleFuncs_loop fns name shortPath validatedValue
            (errorList @ [valError name shortPath err]))"

text \<open>The second loop: the strings of the base document.\<close>

fun validateResources_strings ::
  "stringEl list \<Rightarrow> resourcesEl \<Rightarrow> string \<Rightarrow> bool \<Rightarrow> error list \<Rightarrow> panic + error list" where
  "validateResources_strings [] validatedResources shortPath showMissing errorList = Inr errorList"
| "validateResources_strings (baseElem # rest) validatedResources shortPath showMissing errorList =
     (case findStringElement validatedResources (string_Name baseElem) of
        None \<Rightarrow>
          validateResources_strings rest validatedResources shortPath showMissing
            (if showMissing then errorList @ [missingError (string_Name baseElem) shortPath]
             else errorList)
      | Some validatedElem \<Rightarrow>
          (case comparisonFuncs_loop comparisonValidationFuncs (string_Name baseElem) shortPath
                  (string_Value baseElem) (string_Value validatedElem) errorList of
             Inl p \<Rightarrow> Inl p
           | Inr errorList' \<Rightarrow>
               validateResources_strings rest validatedResources shortPath showMissing
                 (simpleFuncs_loop simpleValidationFuncs (string_Name baseElem) shortPath
                    (string_Value validatedElem) errorList')))"

text \<open>
  The loop \<open>for i := range baseElem.Items\<close> over the indices of a base array. The two
  items are read once per index here; the source reads them again for every rule, with
  the same outcome.
\<close>

fun validateResources_items ::
  "nat list \<Rightarrow> stringArrayEl \<Rightarrow> stringArrayEl \<Rightarrow> string \<Rightarrow> error list \<Rightarrow> panic + error list" where
  "validateResources_items [] baseElem validatedElem shortPath errorList = Inr errorList"
| "validateResources_items (i # is) baseElem validatedElem shortPath errorList =
     (case index (array_Items baseElem) i of
        Inl p \<Rightarrow> Inl p
      | Inr baseItem \<Rightarrow>
          (case index (array_Items validatedElem) i of
             Inl p \<Rightarrow> Inl p
           | Inr validatedItem \<Rightarrow>
               (case comparisonFuncs_loop comparisonValidationFuncs (array_Name baseElem) shortPath
                       baseItem validatedItem errorList of
                  Inl p \<Rightarrow> Inl p
                | Inr errorList' \<Rightarrow>
                    validateResources_items is baseElem validatedElem shortPath
                      (simpleFuncs_loop simpleValidationFuncs (array_Name baseElem) shortPath
                         validatedItem errorList'))))"

definition itemCountError :: "stringArrayEl \<Rightarrow> stringArrayEl \<Rightarrow> string \<Rightarrow> error" where
  "itemCountError baseElem validatedElem shortPath =
     ValidationError (array_Name validatedElem @ '' array in '' @ shortPath @ '' has ''
       @ showNat (length (array_Items validatedElem)) @ '' items, but it should have ''
       @ showNat (length (array_Items baseElem)))"

text \<open>The third loop: the string arrays of the base document.\<close>

fun validateResources_arrays ::
  "stringArrayEl list \<Rightarrow> resourcesEl \<Rightarrow> string \<Rightarrow> bool \<Rightarrow> error list \<Rightarrow> panic + error list" where
  "validateResources_arrays [] validatedResources shortPath showMissing errorList = Inr errorList"
| "validateResources_arrays (baseElem # rest) validatedResources shortPath showMissing errorList =
     (case findStringArrayElement validatedResources (array_Name baseElem) of
        None \<Rightarrow>
          validateResources_arrays rest validatedResources shortPath showMissing
            (if showMissing then errorList @ [missingError (array_Name baseElem) shortPath]
             else errorList)
      | Some validatedElem \<Rightarrow>
          if length (array_Items baseElem) \<noteq> length (array_Items validatedElem)
          then validateResources_arrays rest validatedResources shortPath showMissing
                 (errorList @ [itemCountError baseElem validatedElem shortPath])
          else (case validateResources_items [0..<length (array_Items baseElem)] baseElem
                       validatedElem shortPath errorList of
                  Inl p \<Rightarrow> Inl p
                | Inr errorList' \<Rightarrow>
                    validateResources_arrays rest validatedResources shortPath showMissing
                      errorList'))"

text \<open>The fourth loop: the plurals of the validated document, item by item.\<close>

fun validateResources_pluralItems ::
  "pluralItemEl list \<Rightarrow> pluralEl \<Rightarrow> string \<Rightarrow> error list \<Rightarrow> error list" where
  "validateResources_pluralItems [] pluralsElem shortPath errorList = errorList"
| "validateResources_pluralItems (pluralValue # rest) pluralsElem shortPath errorList =
     validateResources_pluralItems rest pluralsElem shortPath
       (simpleFuncs_loop simpleValidationFuncs (plural_Name pluralsElem) shortPath
          (item_Value pluralValue) errorList)"

fun validateResources_plurals :: "pluralEl list \<Rightarrow> string \<Rightarrow> error list \<Rightarrow> error list" where
  "validateResources_plurals [] shortPath errorList = errorList"
| "validateResources_plurals (pluralsElem # rest) shortPath errorList =
     validateResources_plurals rest shortPath
       (validateResources_pluralItems (plural_Items pluralsElem) pluralsElem shortPath errorList)"

definition validateResources ::
  "resourcesEl \<Rightarrow> resourcesEl \<Rightarrow> string \<Rightarrow> bool \<Rightarrow> panic + error list" where
  "validateResources baseResources validatedResources shortPath showMissing =
     (let errorList = validateResources_orphans (Strings validatedResources) baseResources
                        shortPath []
      in case validateResources_strings (Strings baseResources) validatedResources shortPath
                showMissing errorList of
           Inl p \<Rightarrow> Inl p
         | Inr errorList' \<Rightarrow>
             (case validateResources_arrays (StringArrays baseResources) validatedResources
                     shortPath showMissing errorList' of
                Inl p \<Rightarrow> Inl p
              | Inr errorList'' \<Rightarrow>
                  Inr (validateResources_plurals (Plurals validatedResources) shortPath
                         errorList'')))"

section \<open>The run over a resource directory\<close>

text \<open>
  What the package takes from outside: the file system and the library calls
  (\<open>ioutil.ReadFile\<close>, \<open>xml.Unmarshal\<close>, \<open>filepath.Glob\<close>, \<open>filepath.Join\<close>,
  \<open>filepath.Rel\<close>), as parameters. Reads and globs are recorded in a trace, threaded
  through the calls.
\<close>

record env =
  ReadFile :: "string \<Rightarrow> error + string"
  Unmarshal :: "string \<Rightarrow> error + resourcesEl"
  Glob :: "string \<Rightarrow> error + string list"
  Join :: "string list \<Rightarrow> string"
  Rel :: "string \<Rightarrow> string \<Rightarrow> error + string"

datatype io_event = ReadFileCall string | GlobCall string

definition valuesDir :: "string \<Rightarrow> string" where
  "valuesDir locale = (if length locale > 0 then ''values-'' @ locale else ''values'')"

definition parseResourcesFile ::
  "env \<Rightarrow> string \<Rightarrow> io_event list \<Rightarrow> (error + resourcesEl) \<times> io_event list" where
  "parseResourcesFile e path trace =
     (case ReadFile e path of
        Inl err \<Rightarrow> (Inl err, trace @ [ReadFileCall path])
      | Inr data \<Rightarrow>
          (case Unmarshal e data of
             Inl err \<Rightarrow> (Inl err, trace @ [ReadFileCall path])
           | Inr resources \<Rightarrow> (Inr resources, trace @ [ReadFileCall path])))"

definition parseResources ::
  "env \<Rightarrow> string \<Rightarrow> string \<Rightarrow> string \<Rightarrow> io_event list
     \<Rightarrow> (error + resourcesEl) \<times> io_event list" where
  "parseResources e resDir localeName stringsFilename trace =
     (let path = Join e [resDir, valuesDir localeName, stringsFilename]
      in parseResourcesFile e path trace)"

text \<open>The search for \<open>exceptForPath\<close>: \<open>idx\<close> stays \<open>-1\<close> when no path is equal to it.\<close>

fun getOtherStringsFilePaths_idx :: "nat \<Rightarrow> string list \<Rightarrow> string \<Rightarrow> int" where
  "getOtherStringsFilePaths_idx i [] exceptForPath = - 1"
| "getOtherStringsFilePaths_idx i (p # rest) exceptForPath =
     (if p = exceptForPath then int i else getOtherStringsFilePaths_idx (Suc i) rest exceptForPath)"

definition getOtherStringsFilePaths ::
  "env \<Rightarrow> string \<Rightarrow> string \<Rightarrow> string \<Rightarrow> io_event list
     \<Rightarrow> (error + string list) \<times> io_event list" where
  "getOtherStringsFilePaths e resDir exceptForLocale stringsFilename trace =
     (let patt = Join e [resDir, ''values-*'', stringsFilename];
          trace1 = trace @ [GlobCall patt]
      in case Glob e patt of
           Inl err \<Rightarrow> (Inl err, trace1)
         | Inr paths \<Rightarrow>
             (let patt2 = Join e [resDir, ''values'', stringsFilename];
                  trace2 = trace1 @ [GlobCall patt2]
              in case Glob e patt2 of
                   Inl err \<Rightarrow> (Inl err, trace2)
                 | Inr paths2 \<Rightarrow>
                     (let paths' = paths @ paths2;
                          exceptForPath = Join e [resDir, valuesDir exceptForLocale, stringsFilename];
                          idx = getOtherStringsFilePaths_idx 0 paths' exceptForPath
                      in if idx \<ge> 0
                         then (Inr (take (nat idx) paths' @ drop (nat idx + 1) paths'), trace2)
                         else (Inr paths', trace2))))"

definition extractShortPath :: "env \<Rightarrow> string \<Rightarrow> string \<Rightarrow> string" where
  "extractShortPath e resDir stringsFilePath =
     (case Rel e resDir stringsFilePath of Inl err \<Rightarrow> stringsFilePath | Inr p \<Rightarrow> p)"

text \<open>The loop \<open>for _, path := range paths\<close> of \<open>Validate\<close>.\<close>

fun Validate_loop ::
  "env \<Rightarrow> string \<Rightarrow> resourcesEl \<Rightarrow> bool \<Rightarrow> string list \<Rightarrow> error list \<Rightarrow> io_event list
     \<Rightarrow> (panic + error list) \<times> io_event list" where
  "Validate_loop e resDir baseResources showMissing [] errorList trace = (Inr errorList, trace)"
| "Validate_loop e resDir baseResources showMissing (path # rest) errorList trace =
     (case parseResourcesFile e path trace of
        (Inl err, trace') \<Rightarrow>
          Validate_loop e resDir baseResources showMissing rest (errorList @ [err]) trace'
      | (Inr resources, trace') \<Rightarrow>
          (let shortPath = extractShortPath e resDir path
           in case validateResources baseResources resources shortPath showMissing of
                Inl p \<Rightarrow> (Inl p, trace')
              | Inr ers \<Rightarrow>
                  Validate_loop e resDir baseResources showMissing rest (errorList @ ers) trace'))"

definition Validate ::
  "env \<Rightarrow> string \<Rightarrow> string \<Rightarrow> string \<Rightarrow> bool \<Rightarrow> (panic + error list) \<times> io_event list" where
  "Validate e resDir baseLocale stringsFilename showMissing =
     (case parseResources e resDir baseLocale stringsFilename [] of
        (Inl err, trace) \<Rightarrow> (Inr ([] @ [err]), trace)
      | (Inr baseResources, trace) \<Rightarrow>
          (case getOtherStringsFilePaths e resDir baseLocale stringsFilename trace of
             (Inl err, trace') \<Rightarrow> (Inr ([] @ [err]), trace')
           | (Inr paths, trace') \<Rightarrow>
               Validate_loop e resDir baseResources showMissing paths [] trace'))"

section \<open>Auxiliary notions for the properties\<close>

text \<open>The shape of every match the patterns produce: the whole match and group 1, equal.\<close>

definition pairMatch :: "string list \<Rightarrow> bool" where
  "pairMatch m = (m = [hd m, hd m])"

text \<open>The findings of kind \<open>ResourceMissingError\<close>.\<close>

fun isMissing :: "error \<Rightarrow> bool" where
  "isMissing (ResourceMissingError msg) = True"
| "isMissing e = False"

text \<open>A result with findings put in front of it; a panic stays a panic.\<close>

definition prepend :: "error list \<Rightarrow> panic + error list \<Rightarrow> panic + error list" where
  "prepend a r = (case r of Inl p \<Rightarrow> Inl p | Inr fs \<Rightarrow> Inr (a @ fs))"

text \<open>A value on which both single-value rules return no error.\<close>

definition passesSimpleRules :: "string \<Rightarrow> bool" where
  "passesSimpleRules v =
     (validatePotentialPlaceholder v = None \<and> validateNewlineCharacters v = None)"

section \<open>Example documents and environments\<close>

definition exampleBase :: resourcesEl where
  "exampleBase = \<lparr>Strings = [\<lparr>string_Name = ''hello'', string_Value = ''Hello %s''\<rparr>],
                  Plurals = [\<lparr>plural_Name = ''days'',
                             plural_Items = [\<lparr>item_Quantity = ''one'', item_Value = ''%d day''\<rparr>]\<rparr>],
                  StringArrays = [\<lparr>array_Name = ''colors'',
                                  array_Items = [''red'', ''green'', ''blue'']\<rparr>]\<rparr>"

definition exampleTranslated :: resourcesEl where
  "exampleTranslated =
     \<lparr>Strings = [\<lparr>string_Name = ''hello'', string_Value = ''Hallo %s''\<rparr>,
                 \<lparr>string_Name = ''extra_key'', string_Value = ''x''\<rparr>],
      Plurals = [],
      StringArrays = [\<lparr>array_Name = ''colors'', array_Items = [''rot'', ''blau'']\<rparr>]\<rparr>"

text \<open>A document whose array and plural entries have no counterpart in \<open>exampleBase\<close>.\<close>

definition orphanDoc :: resourcesEl where
  "orphanDoc =
     \<lparr>Strings = [],
      Plurals = [\<lparr>plural_Name = ''progress'',
                 plural_Items = [\<lparr>item_Quantity = ''one'', item_Value = ''% done''\<rparr>]\<rparr>],
      StringArrays = [\<lparr>array_Name = ''sizes'', array_Items = [''S'', ''M'']\<rparr>]\<rparr>"

definition emptyDoc :: resourcesEl where
  "emptyDoc = \<lparr>Strings = [], Plurals = [], StringArrays = []\<rparr>"

definition discountDoc :: resourcesEl where
  "discountDoc = \<lparr>Strings = [\<lparr>string_Name = ''discount'', string_Value = ''50% off''\<rparr>],
                  Plurals = [], StringArrays = []\<rparr>"

text \<open>A document with two string entries of one name and different placeholders.\<close>

definition duplicateDoc :: resourcesEl where
  "duplicateDoc = \<lparr>Strings = [\<lparr>string_Name = ''x'', string_Value = ''%s''\<rparr>,
                              \<lparr>string_Name = ''x'', string_Value = ''%d''\<rparr>],
                   Plurals = [], StringArrays = []\<rparr>"

text \<open>
  Two documents on which the positional-placeholder rule panics (\<open>greet\<close>), next to an
  orphan string entry, an array with another number of items and a plurals entry.
\<close>

definition crashBase :: resourcesEl where
  "crashBase = \<lparr>Strings = [\<lparr>string_Name = ''greet'', string_Value = ''%1$s''\<rparr>],
                Plurals = [],
                StringArrays = [\<lparr>array_Name = ''colors'',
                                array_Items = [''red'', ''green'', ''blue'']\<rparr>]\<rparr>"

definition crashTranslated :: resourcesEl where
  "crashTranslated =
     \<lparr>Strings = [\<lparr>string_Name = ''greet'', string_Value = ''%2$s''\<rparr>,
                 \<lparr>string_Name = ''extra_key'', string_Value = ''x''\<rparr>],
      Plurals = [\<lparr>plural_Name = ''progress'',
                 plural_Items = [\<lparr>item_Quantity = ''one'', item_Value = ''% done''\<rparr>]\<rparr>],
      StringArrays = [\<lparr>array_Name = ''colors'', array_Items = [''rot'', ''blau'']\<rparr>]\<rparr>"

text \<open>
  \<open>filepath.Join\<close> on elements that are already clean: the non-empty elements, with a
  slash between them.
\<close>

fun joinElems :: "string list \<Rightarrow> string" where
  "joinElems [] = []"
| "joinElems [el] = el"
| "joinElems (el # rest) = el @ ''/'' @ joinElems rest"

text \<open>An environment in which no file can be read.\<close>

definition failingEnv :: env where
  "failingEnv = \<lparr>ReadFile = (\<lambda>path. Inl (LibraryError (''open '' @ path @ '': no such file or directory''))),
                 Unmarshal = (\<lambda>data. Inl (LibraryError ''EOF'')),
                 Glob = (\<lambda>patt. Inr []),
                 Join = (\<lambda>elems. joinElems (filter (\<lambda>el. el \<noteq> []) elems)),
                 Rel = (\<lambda>base target. Inr target)\<rparr>"

section \<open>The rules: what they return\<close>

lemma pairMatch_iff: "pairMatch m \<longleftrightarrow> (\<exists>tok. m = [tok, tok])"
  unfolding pairMatch_def by (metis list.sel(1))

lemma index_pairMatch [simp]:
  "pairMatch m \<Longrightarrow> index m 1 = Inr (hd m)"
  "pairMatch m \<Longrightarrow> index m (Suc 0) = Inr (hd m)"
  by (auto simp: pairMatch_iff index_def)

lemma pairMatch_eq: "pairMatch m \<Longrightarrow> pairMatch t \<Longrightarrow> (hd m = hd t) = (m = t)"
  by (auto simp: pairMatch_iff)

lemma Simple_pairMatch: "\<forall>m \<in> set (SimplePlaceholderRegex_FindAllStringSubmatch s). pairMatch m"
  by (induction s rule: SimplePlaceholderRegex_FindAllStringSubmatch.induct)
     (auto simp: pairMatch_iff)

lemma Positional_pairMatch:
  "\<forall>m \<in> set (PositionalPlaceholderRegex_FindAllStringSubmatch s). pairMatch m"
  by (induction s rule: PositionalPlaceholderRegex_FindAllStringSubmatch.induct)
     (auto simp: pairMatch_iff Let_def split: list.splits)

lemma find_result:
  assumes "\<forall>t \<in> set tms. pairMatch t" and "pairMatch m"
  shows "\<exists>r. validatePositionalPlaceholders_find m tms acc = Inr r
           \<and> (r = None \<longleftrightarrow> acc = None \<and> m \<notin> set tms)"
  using assms
proof (induction tms arbitrary: acc)
  case Nil
  then show ?case by simp
next
  case (Cons t tms)
  then have pt: "pairMatch t" and rest: "\<forall>t \<in> set tms. pairMatch t" by simp_all
  have step: "validatePositionalPlaceholders_find m (t # tms) acc =
      validatePositionalPlaceholders_find m tms (if m = t then Some t else acc)"
    using pt Cons.prems(2) by (simp add: pairMatch_eq)
  from Cons.IH [OF rest Cons.prems(2), of "if m = t then Some t else acc"]
  show ?case
    unfolding step by (cases "m = t") auto
qed

lemma positional_loop_ok:
  assumes "\<forall>t \<in> set tms. pairMatch t" and "\<forall>m \<in> set bms. pairMatch m"
    and "set bms \<subseteq> set tms"
  shows "validatePositionalPlaceholders_loop i bms tms = Inr None"
  using assms(2,3)
proof (induction bms arbitrary: i)
  case Nil
  then show ?case by simp
next
  case (Cons m bms)
  then have pm: "pairMatch m" and mem: "m \<in> set tms" by simp_all
  from find_result [OF assms(1) pm, of None] mem
  obtain f where "validatePositionalPlaceholders_find m tms None = Inr (Some f)" by auto
  with Cons show ?case by simp
qed

lemma positional_loop_panics:
  assumes "\<forall>t \<in> set tms. pairMatch t" and "\<forall>m \<in> set bms. pairMatch m"
    and "\<not> set bms \<subseteq> set tms"
  shows "validatePositionalPlaceholders_loop i bms tms = Inl IndexOutOfRange"
  using assms(2,3)
proof (induction bms arbitrary: i)
  case Nil
  then show ?case by simp
next
  case (Cons m bms)
  then have pm: "pairMatch m" by simp
  show ?case
  proof (cases "m \<in> set tms")
    case True
    with find_result [OF assms(1) pm, of None]
    obtain f where "validatePositionalPlaceholders_find m tms None = Inr (Some f)" by auto
    with Cons True show ?thesis by simp
  next
    case False
    with find_result [OF assms(1) pm, of None]
    have "validatePositionalPlaceholders_find m tms None = Inr None" by auto
    then show ?thesis by (simp add: index_def)
  qed
qed

lemma validatePositionalPlaceholders_cases:
  "validatePositionalPlaceholders b t =
     (let bms = PositionalPlaceholderRegex_FindAllStringSubmatch b;
          tms = PositionalPlaceholderRegex_FindAllStringSubmatch t
      in if length bms \<noteq> length tms then Inr (Some (countMismatch (length tms) (length bms)))
         else if set bms \<subseteq> set tms then Inr None
         else Inl IndexOutOfRange)"
  using positional_loop_ok [OF Positional_pairMatch Positional_pairMatch, of b t 0]
        positional_loop_panics [OF Positional_pairMatch Positional_pairMatch, of b t 0]
  by (auto simp: validatePositionalPlaceholders_def Let_def)

lemma validatePositionalPlaceholders_same: "validatePositionalPlaceholders v v = Inr None"
  by (simp add: validatePositionalPlaceholders_cases)

lemma simple_loop_step:
  assumes "pairMatch m" and "i < length tms" and "pairMatch (tms ! i)"
  shows "validateSimplePlaceholders_loop i (m # bms) tms =
      (if m \<noteq> tms ! i then Inr (Some (tokenMismatch i (hd (tms ! i)) (hd m)))
       else validateSimplePlaceholders_loop (Suc i) bms tms)"
proof -
  have "index tms i = Inr (tms ! i)" using assms(2) by (simp add: index_def)
  then show ?thesis using assms(1,3) by (simp add: pairMatch_eq)
qed

lemma simple_loop_same:
  assumes "\<forall>t \<in> set tms. pairMatch t" and "bms = drop i tms"
  shows "validateSimplePlaceholders_loop i bms tms = Inr None"
  using assms(2)
proof (induction bms arbitrary: i)
  case Nil
  then show ?case by simp
next
  case (Cons m bms)
  then have i: "i < length tms" by (metis drop_all list.distinct(1) not_le)
  then have dr: "drop i tms = tms ! i # drop (Suc i) tms" by (simp add: Cons_nth_drop_Suc)
  with Cons.prems have m: "m = tms ! i" and rest: "bms = drop (Suc i) tms" by simp_all
  have "pairMatch (tms ! i)" using assms(1) i by simp
  then show ?case using simple_loop_step [of m i tms bms] m i Cons.IH [OF rest] by simp
qed

lemma simple_loop_mismatch:
  assumes "\<forall>t \<in> set tms. pairMatch t" and "\<forall>m \<in> set bms. pairMatch m"
    and "i + length bms = length tms"
    and "k < length bms" and "bms ! k \<noteq> tms ! (i + k)"
    and "\<forall>j < k. bms ! j = tms ! (i + j)"
  shows "validateSimplePlaceholders_loop i bms tms =
           Inr (Some (tokenMismatch (i + k) (hd (tms ! (i + k))) (hd (bms ! k))))"
  using assms(2-)
proof (induction bms arbitrary: i k)
  case Nil
  then show ?case by simp
next
  case (Cons m bms)
  then have pm: "pairMatch m" and i: "i < length tms" by simp_all
  then have pt: "pairMatch (tms ! i)" using assms(1) by simp
  note step = simple_loop_step [OF pm i pt, of bms]
  show ?case
  proof (cases k)
    case 0
    then show ?thesis using Cons.prems step by simp
  next
    case (Suc k')
    then have m: "m = tms ! i" using Cons.prems(5) by auto
    have "validateSimplePlaceholders_loop (Suc i) bms tms =
           Inr (Some (tokenMismatch (Suc i + k') (hd (tms ! (Suc i + k'))) (hd (bms ! k'))))"
    proof (rule Cons.IH)
      show "\<forall>m\<in>set bms. pairMatch m" using Cons.prems(1) by simp
      show "Suc i + length bms = length tms" using Cons.prems(2) by simp
      show "k' < length bms" using Cons.prems(3) Suc by simp
      show "bms ! k' \<noteq> tms ! (Suc i + k')" using Cons.prems(4) Suc by simp
      show "\<forall>j<k'. bms ! j = tms ! (Suc i + j)"
      proof (intro allI impI)
        fix j assume "j < k'"
        then have "Suc j < k" using Suc by simp
        then have "(m # bms) ! Suc j = tms ! (i + Suc j)" using Cons.prems(5) by blast
        then show "bms ! j = tms ! (Suc i + j)" by simp
      qed
    qed
    then show ?thesis using step m Suc by simp
  qed
qed

lemma validateSimplePlaceholders_same: "validateSimplePlaceholders v v = Inr None"
  using simple_loop_same [OF Simple_pairMatch, of _ 0 v]
  by (simp add: validateSimplePlaceholders_def Let_def)

lemma percent_space_Cons:
  "(\<exists>pre d post. c # s = pre @ percent # d # post \<and> isSpace d) \<longleftrightarrow>
     (c = percent \<and> (\<exists>d post. s = d # post \<and> isSpace d))
     \<or> (\<exists>pre d post. s = pre @ percent # d # post \<and> isSpace d)"
  (is "?L \<longleftrightarrow> ?A \<or> ?B")
proof
  assume ?L
  then obtain pre d post where eq: "c # s = pre @ percent # d # post" and sp: "isSpace d"
    by blast
  show "?A \<or> ?B"
  proof (cases pre)
    case Nil
    then show ?thesis using eq sp by simp
  next
    case (Cons a pre')
    then have "s = pre' @ percent # d # post" using eq by simp
    then show ?thesis using sp by blast
  qed
next
  assume "?A \<or> ?B"
  then show ?L
  proof
    assume ?A
    then obtain d post where "c # s = [] @ percent # d # post" "isSpace d" by auto
    then show ?L by blast
  next
    assume ?B
    then obtain pre d post where "c # s = (c # pre) @ percent # d # post" "isSpace d" by auto
    then show ?L by blast
  qed
qed

lemma potential_matches_iff:
  "PotentialPlaceholderRegex_FindAllStringSubmatch s \<noteq> [] \<longleftrightarrow>
     (\<exists>pre d post. s = pre @ percent # d # post \<and> isSpace d)"
proof (induction s rule: PotentialPlaceholderRegex_FindAllStringSubmatch.induct)
  case (1 c d rest)
  then show ?case by (subst percent_space_Cons) auto
qed (simp_all add: percent_space_Cons)

lemma newline_matches_iff:
  "NewLineRegex_FindAllStringSubmatch s \<noteq> [] \<longleftrightarrow> newline \<in> set s"
  by (induction s) auto

section \<open>Claims about the rules\<close>

text \<open>
  C1 (the positional-placeholder rule, equal counts, a base token with no equal target
  token). The claim asks for a returned failure that reports the expected token. The
  code does not return: on base \<open>%1$s\<close> and translated \<open>%2$s\<close> the message is built from
  \<open>foundMatch[1]\<close> with \<open>foundMatch\<close> nil, and the call panics.
\<close>

theorem validatePositionalPlaceholders_absent_token_panics:
  "validatePositionalPlaceholders ''%1$s'' ''%2$s'' = Inl IndexOutOfRange"
  by code_simp

text \<open>
  C3, as stated, has the potential-placeholder rule pass on \<open>50% off\<close>. The value holds
  a percent sign followed by a space, and the rule returns its error.
\<close>

theorem validatePotentialPlaceholder_flags_50_percent_off:
  "validatePotentialPlaceholder ''50% off''
     = Some (ErrorString (''Value '' @ quote @ ''50% off'' @ quote @ '' has a potential placeholder''))"
  by code_simp

text \<open>
  C3, amended: the potential-placeholder rule fails on \<open>50% off\<close> and on \<open>% off\<close>,
  passes on \<open>50%off\<close>, and in general fails exactly on the values that hold a percent
  sign immediately followed by a whitespace character (tab, newline, form feed, carriage
  return or space).
\<close>

theorem validatePotentialPlaceholder_percent_whitespace:
  "validatePotentialPlaceholder ''50% off'' \<noteq> None
   \<and> validatePotentialPlaceholder ''% off'' \<noteq> None
   \<and> validatePotentialPlaceholder ''50%off'' = None
   \<and> (\<forall>v. validatePotentialPlaceholder v \<noteq> None
          \<longleftrightarrow> (\<exists>pre d post. v = pre @ percent # d # post \<and> isSpace d))"
proof -
  have a: "validatePotentialPlaceholder ''50% off'' \<noteq> None" by code_simp
  have b: "validatePotentialPlaceholder ''% off'' \<noteq> None" by code_simp
  have c: "validatePotentialPlaceholder ''50%off'' = None" by code_simp
  have d: "\<forall>v. validatePotentialPlaceholder v \<noteq> None
          \<longleftrightarrow> (\<exists>pre d post. v = pre @ percent # d # post \<and> isSpace d)"
    using potential_matches_iff by (simp add: validatePotentialPlaceholder_def Let_def)
  from a b c d show ?thesis by blast
qed

theorem validatePotentialPlaceholder_percent_whitespace_witness:
  "validatePotentialPlaceholder (''100'' @ percent # CHR '' '' # ''sure'') \<noteq> None"
proof -
  have "isSpace (CHR '' '')" by (simp add: isSpace_def)
  then have "\<exists>pre d post. ''100'' @ percent # CHR '' '' # ''sure'' = pre @ percent # d # post
               \<and> isSpace d"
    by blast
  with validatePotentialPlaceholder_percent_whitespace show ?thesis by blast
qed

text \<open>
  C5: the named-placeholder rule compares the percent-letter tokens index by index.
  Base \<open>%s and %d\<close> against \<open>%d and %s\<close> fails at index 0 (got \<open>%d\<close>, expected \<open>%s\<close>);
  \<open>%s\<close> against \<open>%s\<close> passes; \<open>%s\<close> against the empty value fails with the counts
  0 and 1. In general: different counts give the count failure, equal token sequences
  pass, and with equal counts the failure names the first index at which the tokens
  differ, with the token found there and the token expected.
\<close>

theorem validateSimplePlaceholders_index_by_index:
  "validateSimplePlaceholders ''%s and %d'' ''%d and %s''
     = Inr (Some (ErrorString
         ''The target string placeholder #0 is %d, while it probably should be %s''))
   \<and> validateSimplePlaceholders ''%s'' ''%s'' = Inr None
   \<and> validateSimplePlaceholders ''%s'' ''''
     = Inr (Some (ErrorString
         ''The target string has 0 placeholder(s), while it should probably have 1''))
   \<and> (\<forall>b t. length (SimplePlaceholderRegex_FindAllStringSubmatch b)
                \<noteq> length (SimplePlaceholderRegex_FindAllStringSubmatch t)
          \<longrightarrow> validateSimplePlaceholders b t
                = Inr (Some (countMismatch (length (SimplePlaceholderRegex_FindAllStringSubmatch t))
                                           (length (SimplePlaceholderRegex_FindAllStringSubmatch b)))))
   \<and> (\<forall>b t. SimplePlaceholderRegex_FindAllStringSubmatch b
                = SimplePlaceholderRegex_FindAllStringSubmatch t
          \<longrightarrow> validateSimplePlaceholders b t = Inr None)
   \<and> (\<forall>b t k. length (SimplePlaceholderRegex_FindAllStringSubmatch b)
                  = length (SimplePlaceholderRegex_FindAllStringSubmatch t)
          \<and> k < length (SimplePlaceholderRegex_FindAllStringSubmatch b)
          \<and> SimplePlaceholderRegex_FindAllStringSubmatch b ! k
               \<noteq> SimplePlaceholderRegex_FindAllStringSubmatch t ! k
          \<and> (\<forall>j < k. SimplePlaceholderRegex_FindAllStringSubmatch b ! j
                         = SimplePlaceholderRegex_FindAllStringSubmatch t ! j)
          \<longrightarrow> validateSimplePlaceholders b t
                = Inr (Some (tokenMismatch k
                               (SimplePlaceholderRegex_FindAllStringSubmatch t ! k ! 1)
                               (SimplePlaceholderRegex_FindAllStringSubmatch b ! k ! 1))))"
proof -
  have at1: "hd m = m ! 1" if "pairMatch m" for m
    using that by (auto simp: pairMatch_iff)
  have e1: "validateSimplePlaceholders ''%s and %d'' ''%d and %s''
     = Inr (Some (ErrorString
         ''The target string placeholder #0 is %d, while it probably should be %s''))"
    by code_simp
  have e2: "validateSimplePlaceholders ''%s'' ''%s'' = Inr None" by code_simp
  have e3: "validateSimplePlaceholders ''%s'' ''''
     = Inr (Some (ErrorString
         ''The target string has 0 placeholder(s), while it should probably have 1''))"
    by code_simp
  have g1: "validateSimplePlaceholders b t
              = Inr (Some (countMismatch (length (SimplePlaceholderRegex_FindAllStringSubmatch t))
                                         (length (SimplePlaceholderRegex_FindAllStringSubmatch b))))"
    if "length (SimplePlaceholderRegex_FindAllStringSubmatch b)
          \<noteq> length (SimplePlaceholderRegex_FindAllStringSubmatch t)" for b t
    using that by (auto simp: validateSimplePlaceholders_def Let_def)
  have g2: "validateSimplePlaceholders b t = Inr None"
    if "SimplePlaceholderRegex_FindAllStringSubmatch b
          = SimplePlaceholderRegex_FindAllStringSubmatch t" for b t
    using that simple_loop_same [OF Simple_pairMatch, of _ 0 t]
    by (simp add: validateSimplePlaceholders_def Let_def)
  have g3: "validateSimplePlaceholders b t
                = Inr (Some (tokenMismatch k
                               (SimplePlaceholderRegex_FindAllStringSubmatch t ! k ! 1)
                               (SimplePlaceholderRegex_FindAllStringSubmatch b ! k ! 1)))"
    if "length (SimplePlaceholderRegex_FindAllStringSubmatch b)
                  = length (SimplePlaceholderRegex_FindAllStringSubmatch t)"
       "k < length (SimplePlaceholderRegex_FindAllStringSubmatch b)"
       "SimplePlaceholderRegex_FindAllStringSubmatch b ! k
               \<noteq> SimplePlaceholderRegex_FindAllStringSubmatch t ! k"
       "\<forall>j < k. SimplePlaceholderRegex_FindAllStringSubmatch b ! j
                         = SimplePlaceholderRegex_FindAllStringSubmatch t ! j" for b t k
  proof -
    have "pairMatch (SimplePlaceholderRegex_FindAllStringSubmatch t ! k)"
      and "pairMatch (SimplePlaceholderRegex_FindAllStringSubmatch b ! k)"
      using that(1,2) Simple_pairMatch [of t] Simple_pairMatch [of b]
      by (metis nth_mem)+
    then show ?thesis
      using that simple_loop_mismatch [OF Simple_pairMatch Simple_pairMatch, of 0 b t k]
      by (auto simp: validateSimplePlaceholders_def Let_def at1)
  qed
  from e1 e2 e3 g1 g2 g3 show ?thesis by blast
qed

theorem validateSimplePlaceholders_index_by_index_witness:
  "validateSimplePlaceholders ''%a %b %c'' ''%a %x %y''
     = Inr (Some (ErrorString
         ''The target string placeholder #1 is %x, while it probably should be %b''))"
proof -
  have h: "length (SimplePlaceholderRegex_FindAllStringSubmatch ''%a %b %c'')
                  = length (SimplePlaceholderRegex_FindAllStringSubmatch ''%a %x %y'')
          \<and> (1::nat) < length (SimplePlaceholderRegex_FindAllStringSubmatch ''%a %b %c'')
          \<and> SimplePlaceholderRegex_FindAllStringSubmatch ''%a %b %c'' ! 1
               \<noteq> SimplePlaceholderRegex_FindAllStringSubmatch ''%a %x %y'' ! 1
          \<and> (\<forall>j < 1. SimplePlaceholderRegex_FindAllStringSubmatch ''%a %b %c'' ! j
                         = SimplePlaceholderRegex_FindAllStringSubmatch ''%a %x %y'' ! j)"
    by (simp add: percent_def isLetter_def)
  have v: "tokenMismatch 1 (SimplePlaceholderRegex_FindAllStringSubmatch ''%a %x %y'' ! 1 ! 1)
                               (SimplePlaceholderRegex_FindAllStringSubmatch ''%a %b %c'' ! 1 ! 1)
       = ErrorString ''The target string placeholder #1 is %x, while it probably should be %b''"
    by code_simp
  from validateSimplePlaceholders_index_by_index h
  have "validateSimplePlaceholders ''%a %b %c'' ''%a %x %y''
                = Inr (Some (tokenMismatch 1
                               (SimplePlaceholderRegex_FindAllStringSubmatch ''%a %x %y'' ! 1 ! 1)
                               (SimplePlaceholderRegex_FindAllStringSubmatch ''%a %b %c'' ! 1 ! 1)))"
    by blast
  then show ?thesis using v by simp
qed

section \<open>The loops of validateResources\<close>

lemma prepend_simps [simp]:
  "prepend a (Inl p) = Inl p"
  "prepend a (Inr fs) = Inr (a @ fs)"
  by (simp_all add: prepend_def)

lemma prepend_Nil [simp]: "prepend [] r = r"
  by (cases r) simp_all

lemma prepend_prepend [simp]: "prepend a (prepend b r) = prepend (a @ b) r"
  by (cases r) simp_all

text \<open>Every loop only appends to the list it is given.\<close>

lemma orphans_acc:
  "validateResources_orphans xs B sp (a @ acc) = a @ validateResources_orphans xs B sp acc"
  by (induction xs arbitrary: acc) simp_all

lemma orphans_Nil_acc:
  "validateResources_orphans xs B sp acc = acc @ validateResources_orphans xs B sp []"
  using orphans_acc [of xs B sp acc "[]"] by simp

lemma comparison_acc:
  "comparisonFuncs_loop fns n sp b v (a @ acc) = prepend a (comparisonFuncs_loop fns n sp b v acc)"
  by (induction fns arbitrary: acc) (simp_all split: sum.splits option.splits)

lemma comparison_Nil_acc:
  "comparisonFuncs_loop fns n sp b v acc = prepend acc (comparisonFuncs_loop fns n sp b v [])"
  using comparison_acc [of fns n sp b v acc "[]"] by simp

lemma simple_acc:
  "simpleFuncs_loop fns n sp v (a @ acc) = a @ simpleFuncs_loop fns n sp v acc"
  by (induction fns arbitrary: acc) (simp_all split: option.splits)

lemma simple_Nil_acc:
  "simpleFuncs_loop fns n sp v acc = acc @ simpleFuncs_loop fns n sp v []"
  using simple_acc [of fns n sp v acc "[]"] by simp

lemma strings_acc:
  "validateResources_strings bs T sp sm (a @ acc) = prepend a (validateResources_strings bs T sp sm acc)"
proof (induction bs arbitrary: acc)
  case Nil
  then show ?case by simp
next
  case (Cons b bs)
  show ?case
  proof (cases "findStringElement T (string_Name b)")
    case None
    then show ?thesis using Cons [of "acc @ [missingError (string_Name b) sp]"] Cons [of acc]
      by (cases sm) simp_all
  next
    case (Some t)
    show ?thesis
    proof (cases "comparisonFuncs_loop comparisonValidationFuncs (string_Name b) sp
                    (string_Value b) (string_Value t) acc")
      case (Inl p)
      then show ?thesis using Some by (simp add: comparison_acc)
    next
      case (Inr r)
      then show ?thesis using Some Cons by (simp add: comparison_acc simple_acc)
    qed
  qed
qed

lemma strings_Nil_acc:
  "validateResources_strings bs T sp sm acc = prepend acc (validateResources_strings bs T sp sm [])"
  using strings_acc [of bs T sp sm acc "[]"] by simp

lemma items_acc:
  "validateResources_items is b t sp (a @ acc) = prepend a (validateResources_items is b t sp acc)"
proof (induction "is" arbitrary: acc)
  case Nil
  then show ?case by simp
next
  case (Cons i "is")
  show ?case
  proof (cases "index (array_Items b) i")
    case (Inl p)
    then show ?thesis by simp
  next
    case bi: (Inr baseItem)
    show ?thesis
    proof (cases "index (array_Items t) i")
      case (Inl p)
      then show ?thesis using bi by simp
    next
      case ti: (Inr validatedItem)
      show ?thesis
      proof (cases "comparisonFuncs_loop comparisonValidationFuncs (array_Name b) sp
                    baseItem validatedItem acc")
        case (Inl p)
        then show ?thesis using bi ti by (simp add: comparison_acc)
      next
        case (Inr r)
        then show ?thesis using bi ti Cons by (simp add: comparison_acc simple_acc)
      qed
    qed
  qed
qed

lemma items_Nil_acc:
  "validateResources_items is b t sp acc = prepend acc (validateResources_items is b t sp [])"
  using items_acc [of "is" b t sp acc "[]"] by simp

lemma arrays_acc:
  "validateResources_arrays bs T sp sm (a @ acc) = prepend a (validateResources_arrays bs T sp sm acc)"
proof (induction bs arbitrary: acc)
  case Nil
  then show ?case by simp
next
  case (Cons b bs)
  show ?case
  proof (cases "findStringArrayElement T (array_Name b)")
    case None
    then show ?thesis using Cons [of "acc @ [missingError (array_Name b) sp]"] Cons [of acc]
      by (cases sm) simp_all
  next
    case (Some t)
    show ?thesis
    proof (cases "length (array_Items b) \<noteq> length (array_Items t)")
      case True
      then show ?thesis using Some Cons [of "acc @ [itemCountError b t sp]"] by simp
    next
      case False
      show ?thesis
      proof (cases "validateResources_items [0..<length (array_Items b)] b t sp acc")
        case (Inl p)
        then show ?thesis using Some False by (simp add: items_acc)
      next
        case (Inr r)
        then show ?thesis using Some False Cons by (simp add: items_acc)
      qed
    qed
  qed
qed

lemma arrays_Nil_acc:
  "validateResources_arrays bs T sp sm acc = prepend acc (validateResources_arrays bs T sp sm [])"
  using arrays_acc [of bs T sp sm acc "[]"] by simp

lemma pluralItems_acc:
  "validateResources_pluralItems its p sp (a @ acc) = a @ validateResources_pluralItems its p sp acc"
  by (induction its arbitrary: acc) (simp_all add: simple_acc)

lemma pluralItems_Nil_acc:
  "validateResources_pluralItems its p sp acc = acc @ validateResources_pluralItems its p sp []"
  using pluralItems_acc [of its p sp acc "[]"] by simp

lemma plurals_acc:
  "validateResources_plurals ps sp (a @ acc) = a @ validateResources_plurals ps sp acc"
  by (induction ps arbitrary: acc) (simp_all add: pluralItems_acc)

lemma plurals_Nil_acc:
  "validateResources_plurals ps sp acc = acc @ validateResources_plurals ps sp []"
  using plurals_acc [of ps sp acc "[]"] by simp

text \<open>The result of \<open>validateResources\<close>, loop by loop.\<close>

lemma validateResources_phases:
  "validateResources B T sp sm =
     (case validateResources_strings (Strings B) T sp sm [] of
        Inl p \<Rightarrow> Inl p
      | Inr a \<Rightarrow>
          (case validateResources_arrays (StringArrays B) T sp sm [] of
             Inl p \<Rightarrow> Inl p
           | Inr b \<Rightarrow>
               Inr (validateResources_orphans (Strings T) B sp [] @ a @ b
                      @ validateResources_plurals (Plurals T) sp [])))"
proof -
  let ?o = "validateResources_orphans (Strings T) B sp []"
  show ?thesis
  proof (cases "validateResources_strings (Strings B) T sp sm []")
    case (Inl p)
    then show ?thesis
      unfolding validateResources_def Let_def
      by (subst strings_Nil_acc) simp
  next
    case a: (Inr a)
    show ?thesis
    proof (cases "validateResources_arrays (StringArrays B) T sp sm []")
      case (Inl p)
      then show ?thesis
        unfolding validateResources_def Let_def
        by (subst strings_Nil_acc, simp add: a, subst arrays_Nil_acc, simp)
    next
      case (Inr b)
      then show ?thesis
        unfolding validateResources_def Let_def
        by (subst strings_Nil_acc, simp add: a, subst arrays_Nil_acc, simp,
            subst plurals_Nil_acc, simp)
    qed
  qed
qed

text \<open>Splitting the lists the loops run over, and documents that agree on the lookups.\<close>

lemma orphans_append:
  "validateResources_orphans (xs @ ys) B sp [] =
     validateResources_orphans xs B sp [] @ validateResources_orphans ys B sp []"
proof (induction xs)
  case Nil
  then show ?case by simp
next
  case (Cons x xs)
  show ?case
    by (simp, subst orphans_Nil_acc, subst (2) orphans_Nil_acc, simp add: Cons)
qed

lemma hasBaseValue_iff:
  "hasBaseValue e bs \<longleftrightarrow> string_Name e \<in> string_Name ` set bs"
  by (induction bs) auto

lemma findStringElement_loop_drop:
  "string_Name e \<noteq> n \<Longrightarrow>
     findStringElement_loop (xs @ e # ys) n = findStringElement_loop (xs @ ys) n"
  by (induction xs) simp_all

lemma findStringArrayElement_loop_drop:
  "array_Name e \<noteq> n \<Longrightarrow>
     findStringArrayElement_loop (xs @ e # ys) n = findStringArrayElement_loop (xs @ ys) n"
  by (induction xs) simp_all

lemma strings_cong:
  "\<forall>b \<in> set bs. findStringElement T (string_Name b) = findStringElement T' (string_Name b) \<Longrightarrow>
     validateResources_strings bs T sp sm acc = validateResources_strings bs T' sp sm acc"
  by (induction bs arbitrary: acc) (simp_all split del: if_split cong: option.case_cong sum.case_cong)

lemma arrays_cong:
  "\<forall>b \<in> set bs. findStringArrayElement T (array_Name b) = findStringArrayElement T' (array_Name b) \<Longrightarrow>
     validateResources_arrays bs T sp sm acc = validateResources_arrays bs T' sp sm acc"
  by (induction bs arbitrary: acc) (simp_all split del: if_split cong: option.case_cong sum.case_cong if_cong)

lemma arrays_append_True:
  "validateResources_arrays (xs @ ys) T sp True acc =
     (case validateResources_arrays xs T sp True acc of
        Inl p \<Rightarrow> Inl p
      | Inr r \<Rightarrow> validateResources_arrays ys T sp True r)"
  by (induction xs arbitrary: acc) (simp_all split: option.splits sum.splits)

lemma arrays_append_False:
  "validateResources_arrays (xs @ ys) T sp False acc =
     (case validateResources_arrays xs T sp False acc of
        Inl p \<Rightarrow> Inl p
      | Inr r \<Rightarrow> validateResources_arrays ys T sp False r)"
  by (induction xs arbitrary: acc) (simp_all split: option.splits sum.splits)

lemma arrays_append:
  "validateResources_arrays (xs @ ys) T sp sm acc =
     (case validateResources_arrays xs T sp sm acc of
        Inl p \<Rightarrow> Inl p
      | Inr r \<Rightarrow> validateResources_arrays ys T sp sm r)"
  by (cases sm) (simp_all only: arrays_append_True arrays_append_False)

lemma strings_append_True:
  "validateResources_strings (xs @ ys) T sp True acc =
     (case validateResources_strings xs T sp True acc of
        Inl p \<Rightarrow> Inl p
      | Inr r \<Rightarrow> validateResources_strings ys T sp True r)"
  by (induction xs arbitrary: acc) (simp_all split: option.splits sum.splits)

lemma strings_append_False:
  "validateResources_strings (xs @ ys) T sp False acc =
     (case validateResources_strings xs T sp False acc of
        Inl p \<Rightarrow> Inl p
      | Inr r \<Rightarrow> validateResources_strings ys T sp False r)"
  by (induction xs arbitrary: acc) (simp_all split: option.splits sum.splits)

lemma strings_append:
  "validateResources_strings (xs @ ys) T sp sm acc =
     (case validateResources_strings xs T sp sm acc of
        Inl p \<Rightarrow> Inl p
      | Inr r \<Rightarrow> validateResources_strings ys T sp sm r)"
  by (cases sm) (simp_all only: strings_append_True strings_append_False)

lemma plurals_append:
  "validateResources_plurals (xs @ ys) sp [] =
     validateResources_plurals xs sp [] @ validateResources_plurals ys sp []"
proof (induction xs)
  case Nil
  then show ?case by simp
next
  case (Cons x xs)
  show ?case
    by (simp, subst plurals_Nil_acc, subst (2) plurals_Nil_acc, simp add: Cons)
qed

lemma simple_clean:
  "validatePotentialPlaceholder v = None \<Longrightarrow> validateNewlineCharacters v = None \<Longrightarrow>
     simpleFuncs_loop simpleValidationFuncs n sp v acc = acc"
  by (simp add: simpleValidationFuncs_def)

lemma pluralItems_clean:
  "\<forall>it \<in> set its. validatePotentialPlaceholder (item_Value it) = None
       \<and> validateNewlineCharacters (item_Value it) = None \<Longrightarrow>
     validateResources_pluralItems its p sp acc = acc"
  by (induction its arbitrary: acc) (simp_all add: simple_clean)


lemma orphans_Cons:
  "validateResources_orphans (e # ys) B sp [] =
     (if \<not> hasBaseValue e (Strings B)
      then [ValidationError (string_Name e @ '' in '' @ sp @ '' does not have a base value.'')]
      else []) @ validateResources_orphans ys B sp []"
  by (simp, subst orphans_Nil_acc, simp)

lemma plurals_Cons:
  "validateResources_plurals (p # ps) sp [] =
     validateResources_pluralItems (plural_Items p) p sp [] @ validateResources_plurals ps sp []"
  by (simp, subst plurals_Nil_acc, simp)

lemma pluralItems_Cons:
  "validateResources_pluralItems (it # its) p sp [] =
     simpleFuncs_loop simpleValidationFuncs (plural_Name p) sp (item_Value it) []
       @ validateResources_pluralItems its p sp []"
  by (simp, subst pluralItems_Nil_acc, simp)

lemma pluralItems_concat:
  "validateResources_pluralItems its p sp [] =
     concat (map (\<lambda>it. simpleFuncs_loop simpleValidationFuncs (plural_Name p) sp (item_Value it) [])
               its)"
proof (induction its)
  case Nil
  show ?case by simp
next
  case (Cons it its)
  show ?case unfolding pluralItems_Cons Cons by simp
qed

lemma plurals_concat:
  "validateResources_plurals ps sp [] =
     concat (map (\<lambda>p. validateResources_pluralItems (plural_Items p) p sp []) ps)"
proof (induction ps)
  case Nil
  show ?case by simp
next
  case (Cons p ps)
  show ?case unfolding plurals_Cons Cons by simp
qed

lemma find_ignores_Plurals [simp]:
  "findStringElement (T\<lparr>Plurals := ps\<rparr>) n = findStringElement T n"
  "findStringArrayElement (T\<lparr>Plurals := ps\<rparr>) n = findStringArrayElement T n"
  by (simp_all add: findStringElement_def findStringArrayElement_def)

lemma orphans_ignores_Plurals [simp]:
  "validateResources_orphans xs (B\<lparr>Plurals := ps\<rparr>) sp acc = validateResources_orphans xs B sp acc"
  by (induction xs arbitrary: acc) simp_all

lemma arrays_count_step:
  assumes "findStringArrayElement T (array_Name b) = Some t"
    and "length (array_Items b) \<noteq> length (array_Items t)"
  shows "validateResources_arrays (b # ys) T sp sm acc =
           prepend (acc @ [itemCountError b t sp]) (validateResources_arrays ys T sp sm [])"
  using assms by (simp, subst arrays_Nil_acc, simp)

lemma orphans_ignores_StringArrays [simp]:
  "validateResources_orphans xs (B\<lparr>StringArrays := zs\<rparr>) sp acc
     = validateResources_orphans xs B sp acc"
  by (induction xs arbitrary: acc) simp_all

lemma find_ignores_Strings [simp]:
  "findStringArrayElement (T\<lparr>Strings := zs\<rparr>) n = findStringArrayElement T n"
  by (simp add: findStringArrayElement_def)

lemma find_ignores_StringArrays [simp]:
  "findStringElement (T\<lparr>StringArrays := zs\<rparr>) n = findStringElement T n"
  by (simp add: findStringElement_def)

text \<open>Which findings are of kind \<open>ResourceMissingError\<close>.\<close>

lemma isMissing_valError [simp]: "\<not> isMissing (valError n sp e)"
  by (simp add: valError_def)

lemma isMissing_missingError [simp]: "isMissing (missingError n sp)"
  by (simp add: missingError_def)

lemma isMissing_itemCountError [simp]: "\<not> isMissing (itemCountError b t sp)"
  by (simp add: itemCountError_def)

lemma missing_orphans:
  "filter isMissing (validateResources_orphans xs B sp acc) = filter isMissing acc"
  by (induction xs arbitrary: acc) simp_all

lemma missing_simple:
  "filter isMissing (simpleFuncs_loop fns n sp v acc) = filter isMissing acc"
  by (induction fns arbitrary: acc) (simp_all split: option.splits)

lemma missing_comparison:
  "comparisonFuncs_loop fns n sp b v acc = Inr r \<Longrightarrow> filter isMissing r = filter isMissing acc"
proof (induction fns arbitrary: acc)
  case Nil
  then show ?case by simp
next
  case (Cons fn fns)
  show ?case
  proof (cases "fn b v")
    case (Inl p)
    then show ?thesis using Cons.prems by simp
  next
    case (Inr res)
    show ?thesis
    proof (cases res)
      case None
      then show ?thesis using Cons Inr by simp
    next
      case (Some err)
      then show ?thesis using Cons.IH [of "acc @ [valError n sp err]"] Cons.prems Inr by simp
    qed
  qed
qed

lemma missing_items:
  "validateResources_items is b t sp acc = Inr r \<Longrightarrow> filter isMissing r = filter isMissing acc"
proof (induction "is" arbitrary: acc)
  case Nil
  then show ?case by simp
next
  case (Cons i "is")
  from Cons.prems obtain bi ti r' where
      c: "comparisonFuncs_loop comparisonValidationFuncs (array_Name b) sp bi ti acc = Inr r'"
      and rest: "validateResources_items is b t sp
                   (simpleFuncs_loop simpleValidationFuncs (array_Name b) sp ti r') = Inr r"
    by (auto split: sum.splits)
  from missing_comparison [OF c] Cons.IH [OF rest] show ?case by (simp add: missing_simple)
qed

lemma missing_pluralItems:
  "filter isMissing (validateResources_pluralItems its p sp acc) = filter isMissing acc"
  by (induction its arbitrary: acc) (simp_all add: missing_simple)

lemma missing_plurals:
  "filter isMissing (validateResources_plurals ps sp acc) = filter isMissing acc"
  by (induction ps arbitrary: acc) (simp_all add: missing_pluralItems)

lemma missing_strings:
  "validateResources_strings bs T sp sm acc = Inr r \<Longrightarrow>
     filter isMissing r = filter isMissing acc @
       (if sm then map (\<lambda>b. missingError (string_Name b) sp)
                     (filter (\<lambda>b. findStringElement T (string_Name b) = None) bs)
        else [])"
proof (induction bs arbitrary: acc)
  case Nil
  then show ?case by simp
next
  case (Cons b bs)
  show ?case
  proof (cases "findStringElement T (string_Name b)")
    case None
    show ?thesis
    proof (cases sm)
      case True
      with None Cons.prems
      have "validateResources_strings bs T sp sm (acc @ [missingError (string_Name b) sp]) = Inr r"
        by simp
      from Cons.IH [OF this] show ?thesis using None True by simp
    next
      case False
      with None Cons.prems have "validateResources_strings bs T sp sm acc = Inr r" by simp
      from Cons.IH [OF this] show ?thesis using None False by simp
    qed
  next
    case (Some t)
    with Cons.prems obtain r' where
      c: "comparisonFuncs_loop comparisonValidationFuncs (string_Name b) sp
            (string_Value b) (string_Value t) acc = Inr r'"
      and rest: "validateResources_strings bs T sp sm
                   (simpleFuncs_loop simpleValidationFuncs (string_Name b) sp (string_Value t) r')
                 = Inr r"
      by (auto split: sum.splits)
    from missing_comparison [OF c] Cons.IH [OF rest] show ?thesis
      using Some by (simp add: missing_simple)
  qed
qed

lemma missing_arrays:
  "validateResources_arrays bs T sp sm acc = Inr r \<Longrightarrow>
     filter isMissing r = filter isMissing acc @
       (if sm then map (\<lambda>b. missingError (array_Name b) sp)
                     (filter (\<lambda>b. findStringArrayElement T (array_Name b) = None) bs)
        else [])"
proof (induction bs arbitrary: acc)
  case Nil
  then show ?case by simp
next
  case (Cons b bs)
  show ?case
  proof (cases "findStringArrayElement T (array_Name b)")
    case None
    show ?thesis
    proof (cases sm)
      case True
      with None Cons.prems
      have "validateResources_arrays bs T sp sm (acc @ [missingError (array_Name b) sp]) = Inr r"
        by simp
      from Cons.IH [OF this] show ?thesis using None True by simp
    next
      case False
      with None Cons.prems have "validateResources_arrays bs T sp sm acc = Inr r" by simp
      from Cons.IH [OF this] show ?thesis using None False by simp
    qed
  next
    case (Some t)
    show ?thesis
    proof (cases "length (array_Items b) \<noteq> length (array_Items t)")
      case True
      with Some Cons.prems
      have "validateResources_arrays bs T sp sm (acc @ [itemCountError b t sp]) = Inr r" by simp
      from Cons.IH [OF this] show ?thesis using Some by simp
    next
      case False
      with Some Cons.prems obtain r' where
        c: "validateResources_items [0..<length (array_Items b)] b t sp acc = Inr r'"
        and rest: "validateResources_arrays bs T sp sm r' = Inr r"
        by (auto split: sum.splits)
      from missing_items [OF c] Cons.IH [OF rest] show ?thesis using Some by simp
    qed
  qed
qed

lemma missing_validateResources:
  assumes "validateResources B T sp sm = Inr fs"
  shows "filter isMissing fs =
           (if sm then map (\<lambda>b. missingError (string_Name b) sp)
                         (filter (\<lambda>b. findStringElement T (string_Name b) = None) (Strings B))
                       @ map (\<lambda>b. missingError (array_Name b) sp)
                         (filter (\<lambda>b. findStringArrayElement T (array_Name b) = None)
                            (StringArrays B))
            else [])"
proof -
  from assms obtain r1 r2 where
    s: "validateResources_strings (Strings B) T sp sm
          (validateResources_orphans (Strings T) B sp []) = Inr r1"
    and a: "validateResources_arrays (StringArrays B) T sp sm r1 = Inr r2"
    and fs: "fs = validateResources_plurals (Plurals T) sp r2"
    by (auto simp: validateResources_def Let_def split: sum.splits)
  show ?thesis
    unfolding fs missing_plurals missing_arrays [OF a] missing_strings [OF s] missing_orphans
    by simp
qed

text \<open>A document validated against a document that answers every lookup with the same value.\<close>

lemma findStringElement_loop_Some:
  "e \<in> set xs \<Longrightarrow>
     \<exists>e'. findStringElement_loop xs (string_Name e) = Some e' \<and> e' \<in> set xs
           \<and> string_Name e' = string_Name e"
  by (induction xs) auto

lemma findStringArrayElement_loop_Some:
  "e \<in> set xs \<Longrightarrow>
     \<exists>e'. findStringArrayElement_loop xs (array_Name e) = Some e' \<and> e' \<in> set xs
           \<and> array_Name e' = array_Name e"
  by (induction xs) auto

lemma comparison_same:
  "comparisonFuncs_loop comparisonValidationFuncs n sp v v acc = Inr acc"
  by (simp add: comparisonValidationFuncs_def validateSimplePlaceholders_same
        validatePositionalPlaceholders_same)

lemma simple_passes:
  "passesSimpleRules v \<Longrightarrow> simpleFuncs_loop simpleValidationFuncs n sp v acc = acc"
  by (simp add: passesSimpleRules_def simple_clean)

lemma strings_same:
  "\<forall>b \<in> set bs. \<exists>t. findStringElement T (string_Name b) = Some t
        \<and> string_Value t = string_Value b \<and> passesSimpleRules (string_Value t) \<Longrightarrow>
     validateResources_strings bs T sp sm acc = Inr acc"
proof (induction bs arbitrary: acc)
  case Nil
  then show ?case by simp
next
  case (Cons b bs)
  then obtain t where "findStringElement T (string_Name b) = Some t"
    and "string_Value t = string_Value b" and "passesSimpleRules (string_Value t)"
    by auto
  moreover have "validateResources_strings bs T sp sm acc = Inr acc"
    using Cons by simp
  ultimately show ?case by (simp add: comparison_same simple_passes)
qed

lemma items_same:
  assumes "array_Items t = array_Items b"
    and "\<forall>v \<in> set (array_Items b). passesSimpleRules v"
  shows "\<forall>i \<in> set is. i < length (array_Items b) \<Longrightarrow>
           validateResources_items is b t sp acc = Inr acc"
proof (induction "is" arbitrary: acc)
  case Nil
  then show ?case by simp
next
  case (Cons i "is")
  then have i: "i < length (array_Items b)" by simp
  then have "passesSimpleRules (array_Items b ! i)" using assms(2) by simp
  moreover have "validateResources_items is b t sp acc = Inr acc" using Cons by simp
  ultimately show ?case using i assms(1)
    by (simp add: index_def comparison_same simple_passes)
qed

lemma arrays_same:
  "\<forall>b \<in> set bs. \<exists>t. findStringArrayElement T (array_Name b) = Some t
        \<and> array_Items t = array_Items b
        \<and> (\<forall>v \<in> set (array_Items b). passesSimpleRules v) \<Longrightarrow>
     validateResources_arrays bs T sp sm acc = Inr acc"
proof (induction bs arbitrary: acc)
  case Nil
  then show ?case by simp
next
  case (Cons b bs)
  then obtain t where f: "findStringArrayElement T (array_Name b) = Some t"
    and eq: "array_Items t = array_Items b"
    and cl: "\<forall>v \<in> set (array_Items b). passesSimpleRules v"
    by auto
  have "validateResources_items [0..<length (array_Items b)] b t sp acc = Inr acc"
    by (rule items_same [OF eq cl]) simp
  moreover have "validateResources_arrays bs T sp sm acc = Inr acc"
    using Cons by simp
  ultimately show ?case using f eq by simp
qed

lemma orphans_none:
  "\<forall>e \<in> set xs. hasBaseValue e (Strings B) \<Longrightarrow> validateResources_orphans xs B sp acc = acc"
  by (induction xs arbitrary: acc) simp_all

lemma plurals_clean:
  "\<forall>pl \<in> set ps. \<forall>it \<in> set (plural_Items pl). passesSimpleRules (item_Value it) \<Longrightarrow>
     validateResources_plurals ps sp acc = acc"
  by (induction ps arbitrary: acc) (simp_all add: pluralItems_clean passesSimpleRules_def)

section \<open>Claims about validateResources\<close>

text \<open>
  C9: plural entries are never validated against the base document. The plurals of the
  base document have no influence on the result at all (so a base plural entry that is
  absent from, or different in, the translated document yields no finding, whatever
  \<open>showMissing\<close> is), and the plurals of the translated document add exactly the findings
  of the single-value rules on their own item values, after everything else. A panic in
  a comparison rule is a panic with or without the plurals.
\<close>

theorem plurals_not_compared_with_base:
  "validateResources (B\<lparr>Plurals := ps\<rparr>) T sp sm = validateResources B T sp sm
   \<and> validateResources B T sp sm =
       (case validateResources B (T\<lparr>Plurals := []\<rparr>) sp sm of
          Inl p \<Rightarrow> Inl p
        | Inr fs \<Rightarrow>
            Inr (fs @ concat (map (\<lambda>pl. concat (map (\<lambda>it.
                         simpleFuncs_loop simpleValidationFuncs (plural_Name pl) sp (item_Value it) [])
                       (plural_Items pl)))
                     (Plurals T))))"
proof
  show "validateResources (B\<lparr>Plurals := ps\<rparr>) T sp sm = validateResources B T sp sm"
    by (simp add: validateResources_phases split: sum.splits)
next
  have s: "validateResources_strings (Strings B) (T\<lparr>Plurals := []\<rparr>) sp sm []
             = validateResources_strings (Strings B) T sp sm []"
    by (rule strings_cong) simp
  have a: "validateResources_arrays (StringArrays B) (T\<lparr>Plurals := []\<rparr>) sp sm []
             = validateResources_arrays (StringArrays B) T sp sm []"
    by (rule arrays_cong) simp
  have p: "validateResources_plurals (Plurals T) sp [] =
             concat (map (\<lambda>pl. concat (map (\<lambda>it.
                         simpleFuncs_loop simpleValidationFuncs (plural_Name pl) sp (item_Value it) [])
                       (plural_Items pl)))
                     (Plurals T))"
    by (simp only: plurals_concat pluralItems_concat)
  show "validateResources B T sp sm =
       (case validateResources B (T\<lparr>Plurals := []\<rparr>) sp sm of
          Inl p \<Rightarrow> Inl p
        | Inr fs \<Rightarrow>
            Inr (fs @ concat (map (\<lambda>pl. concat (map (\<lambda>it.
                         simpleFuncs_loop simpleValidationFuncs (plural_Name pl) sp (item_Value it) [])
                       (plural_Items pl)))
                     (Plurals T))))"
    unfolding p [symmetric]
    by (simp add: validateResources_phases s a split: sum.splits)
qed

text \<open>
  What one orphan string entry of the translated document adds: compared with the
  document without that entry, the result has the one finding
  \<open><name> in <shortPath> does not have a base value.\<close> more and is otherwise the same;
  the call panics with the entry exactly when it panics without it.
\<close>

lemma orphan_string_contribution:
  assumes T: "Strings T = xs @ e # ys"
    and orphan: "\<forall>b \<in> set (Strings B). string_Name b \<noteq> string_Name e"
  shows "(validateResources B T sp sm = Inl IndexOutOfRange
            \<and> validateResources B (T\<lparr>Strings := xs @ ys\<rparr>) sp sm = Inl IndexOutOfRange)
         \<or> (\<exists>pre post.
               validateResources B (T\<lparr>Strings := xs @ ys\<rparr>) sp sm = Inr (pre @ post)
             \<and> validateResources B T sp sm =
                 Inr (pre @ [ValidationError (string_Name e @ '' in '' @ sp
                                @ '' does not have a base value.'')] @ post))"
proof -
  let ?T' = "T\<lparr>Strings := xs @ ys\<rparr>"
  let ?f = "ValidationError (string_Name e @ '' in '' @ sp @ '' does not have a base value.'')"
  have nb: "\<not> hasBaseValue e (Strings B)" using orphan by (auto simp: hasBaseValue_iff)
  have s: "validateResources_strings (Strings B) ?T' sp sm []
             = validateResources_strings (Strings B) T sp sm []"
  proof (rule strings_cong, rule ballI)
    fix b assume "b \<in> set (Strings B)"
    then have "string_Name e \<noteq> string_Name b" using orphan by auto
    then show "findStringElement ?T' (string_Name b) = findStringElement T (string_Name b)"
      by (simp add: findStringElement_def T findStringElement_loop_drop)
  qed
  have a: "validateResources_arrays (StringArrays B) ?T' sp sm []
             = validateResources_arrays (StringArrays B) T sp sm []"
    by (rule arrays_cong) (simp add: findStringArrayElement_def)
  have o: "validateResources_orphans (Strings T) B sp [] =
             validateResources_orphans xs B sp [] @ [?f] @ validateResources_orphans ys B sp []"
    unfolding T orphans_append orphans_Cons using nb by simp
  have o': "validateResources_orphans (Strings ?T') B sp [] =
             validateResources_orphans xs B sp [] @ validateResources_orphans ys B sp []"
    by (simp add: orphans_append)
  show ?thesis
  proof (cases "validateResources_strings (Strings B) T sp sm []")
    case (Inl p)
    then have "validateResources B T sp sm = Inl IndexOutOfRange"
      and "validateResources B ?T' sp sm = Inl IndexOutOfRange"
      by (cases p, simp add: validateResources_phases s)+
    then show ?thesis by blast
  next
    case sr: (Inr r)
    show ?thesis
    proof (cases "validateResources_arrays (StringArrays B) T sp sm []")
      case (Inl p)
      then have "validateResources B T sp sm = Inl IndexOutOfRange"
        and "validateResources B ?T' sp sm = Inl IndexOutOfRange"
        by (cases p, simp add: validateResources_phases s a sr)+
      then show ?thesis by blast
    next
      case (Inr r')
      let ?pre = "validateResources_orphans xs B sp []"
      let ?post = "validateResources_orphans ys B sp [] @ r @ r'
                     @ validateResources_plurals (Plurals T) sp []"
      have "validateResources B ?T' sp sm = Inr (?pre @ ?post)"
        unfolding validateResources_phases s a sr Inr o' by simp
      moreover have "validateResources B T sp sm = Inr (?pre @ [?f] @ ?post)"
        unfolding validateResources_phases sr Inr o by simp
      ultimately show ?thesis by blast
    qed
  qed
qed


lemma orphan_string_when_returning:
  assumes T: "Strings T = xs @ e # ys"
    and orphan: "\<forall>b \<in> set (Strings B). string_Name b \<noteq> string_Name e"
    and ret: "validateResources B T sp sm = Inr fs"
  shows "\<exists>pre post.
           fs = pre @ [ValidationError (string_Name e @ '' in '' @ sp
                          @ '' does not have a base value.'')] @ post
         \<and> validateResources B (T\<lparr>Strings := xs @ ys\<rparr>) sp sm = Inr (pre @ post)"
  using orphan_string_contribution [OF T orphan, of sp sm] ret by auto

text \<open>
  C6 (a string entry of the translated document without a base string entry of its name
  yields exactly one \<open>ValidationError\<close> naming it, with the text
  \<open>does not have a base value\<close>). The claim is not met on every document: in
  \<open>crashTranslated\<close> the entry \<open>extra_key\<close> has no base entry, the first loop appends its
  finding, and then the positional-placeholder rule panics on \<open>greet\<close> (the index into the nil
  \<open>foundMatch\<close>); the call returns no finding at all, for either value of \<open>showMissing\<close>.
\<close>

theorem orphan_string_finding_lost_in_panic:
  "map string_Name (Strings crashBase) = [''greet'']
   \<and> map string_Name (Strings crashTranslated) = [''greet'', ''extra_key'']
   \<and> validateResources crashBase crashTranslated ''values-de/strings.xml'' True
       = Inl IndexOutOfRange
   \<and> validateResources crashBase crashTranslated ''values-de/strings.xml'' False
       = Inl IndexOutOfRange"
proof -
  have "validateResources crashBase crashTranslated ''values-de/strings.xml'' True
          = Inl IndexOutOfRange"
    by code_simp
  moreover have "validateResources crashBase crashTranslated ''values-de/strings.xml'' False
          = Inl IndexOutOfRange"
    by code_simp
  ultimately show ?thesis by (simp add: crashBase_def crashTranslated_def)
qed

text \<open>
  The two example documents, run: the orphan \<open>extra_key\<close> and the array of two items
  against three each give one finding.
\<close>

lemma validateResources_example:
  "validateResources exampleBase exampleTranslated ''values-de/strings.xml'' True
     = Inr [ValidationError ''extra_key in values-de/strings.xml does not have a base value.'',
            ValidationError ''colors array in values-de/strings.xml has 2 items, but it should have 3'']"
  by code_simp

text \<open>
  What a base string-array entry adds whose counterpart has another number of items:
  compared with the base document without that entry, the result has the one finding
  with the number of items found and the number expected more and is otherwise the same,
  so no rule ran on its items; the call panics with the entry exactly when it panics
  without it.
\<close>

lemma array_count_mismatch_contribution:
  assumes B: "StringArrays B = xs @ b # ys"
    and found: "findStringArrayElement T (array_Name b) = Some t"
    and differ: "length (array_Items b) \<noteq> length (array_Items t)"
  shows "(validateResources B T sp sm = Inl IndexOutOfRange
            \<and> validateResources (B\<lparr>StringArrays := xs @ ys\<rparr>) T sp sm = Inl IndexOutOfRange)
         \<or> (\<exists>pre post.
               validateResources (B\<lparr>StringArrays := xs @ ys\<rparr>) T sp sm = Inr (pre @ post)
             \<and> validateResources B T sp sm =
                 Inr (pre @ [ValidationError (array_Name t @ '' array in '' @ sp @ '' has ''
                               @ showNat (length (array_Items t)) @ '' items, but it should have ''
                               @ showNat (length (array_Items b)))] @ post))"
proof -
  let ?B' = "B\<lparr>StringArrays := xs @ ys\<rparr>"
  let ?f = "itemCountError b t sp"
  let ?o = "validateResources_orphans (Strings T) B sp []"
  let ?p = "validateResources_plurals (Plurals T) sp []"
  have f: "?f = ValidationError (array_Name t @ '' array in '' @ sp @ '' has ''
                               @ showNat (length (array_Items t)) @ '' items, but it should have ''
                               @ showNat (length (array_Items b)))"
    by (simp add: itemCountError_def)
  have with_b: "validateResources_arrays (StringArrays B) T sp sm [] =
      (case validateResources_arrays xs T sp sm [] of
         Inl p \<Rightarrow> Inl p
       | Inr r \<Rightarrow> prepend (r @ [?f]) (validateResources_arrays ys T sp sm []))"
    unfolding B arrays_append
    by (cases "validateResources_arrays xs T sp sm []")
       (simp_all only: sum.case arrays_count_step [OF found differ])
  have without_b: "validateResources_arrays (xs @ ys) T sp sm [] =
      (case validateResources_arrays xs T sp sm [] of
         Inl p \<Rightarrow> Inl p
       | Inr r \<Rightarrow> prepend r (validateResources_arrays ys T sp sm []))"
  proof (cases "validateResources_arrays xs T sp sm []")
    case (Inl p)
    then show ?thesis by (simp add: arrays_append)
  next
    case (Inr r)
    have "validateResources_arrays ys T sp sm r = prepend r (validateResources_arrays ys T sp sm [])"
      by (rule arrays_Nil_acc)
    then show ?thesis using Inr by (simp add: arrays_append)
  qed
  have sel: "Strings ?B' = Strings B" "StringArrays ?B' = xs @ ys" by simp_all
  have R: "validateResources B T sp sm =
      (case validateResources_strings (Strings B) T sp sm [] of
         Inl p \<Rightarrow> Inl p
       | Inr r \<Rightarrow>
           (case validateResources_arrays xs T sp sm [] of
              Inl p \<Rightarrow> Inl p
            | Inr rx \<Rightarrow>
                (case validateResources_arrays ys T sp sm [] of
                   Inl p \<Rightarrow> Inl p
                 | Inr ry \<Rightarrow> Inr ((?o @ r @ rx) @ [?f] @ (ry @ ?p)))))"
    unfolding validateResources_phases with_b
    by (simp split: sum.splits)
  have R': "validateResources ?B' T sp sm =
      (case validateResources_strings (Strings B) T sp sm [] of
         Inl p \<Rightarrow> Inl p
       | Inr r \<Rightarrow>
           (case validateResources_arrays xs T sp sm [] of
              Inl p \<Rightarrow> Inl p
            | Inr rx \<Rightarrow>
                (case validateResources_arrays ys T sp sm [] of
                   Inl p \<Rightarrow> Inl p
                 | Inr ry \<Rightarrow> Inr ((?o @ r @ rx) @ (ry @ ?p)))))"
    unfolding validateResources_phases sel without_b orphans_ignores_StringArrays
    by (simp split: sum.splits)
  have panic: "p = IndexOutOfRange" for p :: panic by (cases p) simp
  show ?thesis
  proof (cases "validateResources_strings (Strings B) T sp sm []")
    case (Inl p)
    show ?thesis unfolding R R' Inl using panic [of p] by simp
  next
    case sr: (Inr r)
    show ?thesis
    proof (cases "validateResources_arrays xs T sp sm []")
      case (Inl p)
      show ?thesis unfolding R R' sr Inl using panic [of p] by simp
    next
      case x: (Inr rx)
      show ?thesis
      proof (cases "validateResources_arrays ys T sp sm []")
        case (Inl p)
        show ?thesis unfolding R R' sr x Inl using panic [of p] by simp
      next
        case y: (Inr ry)
        have "validateResources ?B' T sp sm = Inr ((?o @ r @ rx) @ (ry @ ?p))"
          unfolding R' sr x y by simp
        moreover have "validateResources B T sp sm = Inr ((?o @ r @ rx) @ [?f] @ (ry @ ?p))"
          unfolding R sr x y by simp
        ultimately show ?thesis unfolding f by blast
      qed
    qed
  qed
qed

lemma array_count_mismatch_when_returning:
  assumes B: "StringArrays B = xs @ b # ys"
    and found: "findStringArrayElement T (array_Name b) = Some t"
    and differ: "length (array_Items b) \<noteq> length (array_Items t)"
    and ret: "validateResources B T sp sm = Inr fs"
  shows "\<exists>pre post.
           fs = pre @ [ValidationError (array_Name t @ '' array in '' @ sp @ '' has ''
                         @ showNat (length (array_Items t)) @ '' items, but it should have ''
                         @ showNat (length (array_Items b)))] @ post
         \<and> validateResources (B\<lparr>StringArrays := xs @ ys\<rparr>) T sp sm = Inr (pre @ post)"
  using array_count_mismatch_contribution [OF B found differ, of sp sm] ret by auto

text \<open>
  C7 (a base string-array entry whose translated counterpart has another item count
  yields exactly one \<open>ValidationError\<close> with the two counts and no per-item finding). The
  claim is not met on every document: the array \<open>colors\<close> has three items in \<open>crashBase\<close>
  and two in \<open>crashTranslated\<close>, but the string loop runs first and the
  positional-placeholder rule panics there on \<open>greet\<close> (the index into the nil \<open>foundMatch\<close>); the array loop
  is never reached and the call returns no finding, for either value of \<open>showMissing\<close>.
\<close>

theorem array_count_finding_lost_in_panic:
  "map array_Items (StringArrays crashBase) = [[''red'', ''green'', ''blue'']]
   \<and> findStringArrayElement crashTranslated ''colors''
       = Some \<lparr>array_Name = ''colors'', array_Items = [''rot'', ''blau'']\<rparr>
   \<and> validateResources crashBase crashTranslated ''values-de/strings.xml'' True
       = Inl IndexOutOfRange
   \<and> validateResources crashBase crashTranslated ''values-de/strings.xml'' False
       = Inl IndexOutOfRange"
proof -
  have "validateResources crashBase crashTranslated ''values-de/strings.xml'' True
          = Inl IndexOutOfRange"
    by code_simp
  moreover have "validateResources crashBase crashTranslated ''values-de/strings.xml'' False
          = Inl IndexOutOfRange"
    by code_simp
  ultimately show ?thesis
    by (simp add: crashBase_def crashTranslated_def findStringArrayElement_def)
qed

text \<open>
  C10, as stated, lets a plurals entry of the translated document without counterpart in
  the base document produce no finding of any kind. The plurals entry \<open>progress\<close> of
  \<open>orphanDoc\<close> has no counterpart in \<open>exampleBase\<close>, and its item \<open>% done\<close> is reported by
  the potential-placeholder rule.
\<close>

theorem unmatched_plural_reported:
  "map plural_Name (Plurals exampleBase) = [''days'']
   \<and> map plural_Name (Plurals orphanDoc) = [''progress'']
   \<and> validateResources exampleBase orphanDoc ''values-de/strings.xml'' False
       = Inr [ValidationError (''progress in values-de/strings.xml: Value '' @ quote @ ''% done''
                @ quote @ '' has a potential placeholder'')]"
proof -
  have "validateResources exampleBase orphanDoc ''values-de/strings.xml'' False
       = Inr [ValidationError (''progress in values-de/strings.xml: Value '' @ quote @ ''% done''
                @ quote @ '' has a potential placeholder'')]"
    by code_simp
  then show ?thesis by (simp add: exampleBase_def orphanDoc_def)
qed

text \<open>
  String arrays and plurals of the translated document, entry by entry: an array whose
  name no base array has does not change the result; a plurals entry adds the findings of
  the single-value rules on its own item values, whatever the base document holds, and
  the call panics with the entry exactly when it panics without it.
\<close>

lemma unmatched_entries_contribution:
  "(StringArrays T = xs @ a # ys \<and> (\<forall>b \<in> set (StringArrays B). array_Name b \<noteq> array_Name a)
      \<longrightarrow> validateResources B T sp sm = validateResources B (T\<lparr>StringArrays := xs @ ys\<rparr>) sp sm)
   \<and> (Plurals T = pxs @ pl # pys
      \<longrightarrow> (case validateResources B (T\<lparr>Plurals := pxs @ pys\<rparr>) sp sm of
             Inl p \<Rightarrow> validateResources B T sp sm = Inl p
           | Inr fs \<Rightarrow>
               (\<exists>pre post. fs = pre @ post
                  \<and> validateResources B T sp sm =
                      Inr (pre @ concat (map (\<lambda>it. simpleFuncs_loop simpleValidationFuncs
                                                     (plural_Name pl) sp (item_Value it) [])
                                           (plural_Items pl)) @ post))))
   \<and> (Plurals T = pxs @ pl # pys
        \<and> (\<forall>it \<in> set (plural_Items pl). validatePotentialPlaceholder (item_Value it) = None
                                          \<and> validateNewlineCharacters (item_Value it) = None)
      \<longrightarrow> validateResources B T sp sm = validateResources B (T\<lparr>Plurals := pxs @ pys\<rparr>) sp sm)"
proof (intro conjI impI)
  assume h: "StringArrays T = xs @ a # ys \<and> (\<forall>b \<in> set (StringArrays B). array_Name b \<noteq> array_Name a)"
  let ?T' = "T\<lparr>StringArrays := xs @ ys\<rparr>"
  have s: "validateResources_strings (Strings B) ?T' sp sm []
             = validateResources_strings (Strings B) T sp sm []"
    by (rule strings_cong) simp
  have a: "validateResources_arrays (StringArrays B) ?T' sp sm []
             = validateResources_arrays (StringArrays B) T sp sm []"
  proof (rule arrays_cong, rule ballI)
    fix b assume "b \<in> set (StringArrays B)"
    then have "array_Name a \<noteq> array_Name b" using h by auto
    then show "findStringArrayElement ?T' (array_Name b) = findStringArrayElement T (array_Name b)"
      using h by (simp add: findStringArrayElement_def findStringArrayElement_loop_drop)
  qed
  show "validateResources B T sp sm = validateResources B ?T' sp sm"
    unfolding validateResources_phases s a by (simp split: sum.splits)
next
  assume h: "Plurals T = pxs @ pl # pys"
  let ?T' = "T\<lparr>Plurals := pxs @ pys\<rparr>"
  let ?own = "concat (map (\<lambda>it. simpleFuncs_loop simpleValidationFuncs
                                   (plural_Name pl) sp (item_Value it) [])
                         (plural_Items pl))"
  let ?o = "validateResources_orphans (Strings T) B sp []"
  have s: "validateResources_strings (Strings B) ?T' sp sm []
             = validateResources_strings (Strings B) T sp sm []"
    by (rule strings_cong) simp
  have a: "validateResources_arrays (StringArrays B) ?T' sp sm []
             = validateResources_arrays (StringArrays B) T sp sm []"
    by (rule arrays_cong) simp
  have p: "validateResources_plurals (Plurals T) sp [] =
             validateResources_plurals pxs sp [] @ ?own @ validateResources_plurals pys sp []"
    unfolding h plurals_append plurals_Cons pluralItems_concat by simp
  have p': "validateResources_plurals (Plurals ?T') sp [] =
             validateResources_plurals pxs sp [] @ validateResources_plurals pys sp []"
    by (simp add: plurals_append)
  show "case validateResources B ?T' sp sm of
             Inl p \<Rightarrow> validateResources B T sp sm = Inl p
           | Inr fs \<Rightarrow>
               (\<exists>pre post. fs = pre @ post
                  \<and> validateResources B T sp sm = Inr (pre @ ?own @ post))"
  proof (cases "validateResources_strings (Strings B) T sp sm []")
    case (Inl p)
    then show ?thesis by (simp add: validateResources_phases s)
  next
    case sr: (Inr r)
    show ?thesis
    proof (cases "validateResources_arrays (StringArrays B) T sp sm []")
      case (Inl p)
      then show ?thesis by (simp add: validateResources_phases s a sr)
    next
      case (Inr r')
      have 1: "validateResources B ?T' sp sm =
                 Inr ((?o @ r @ r' @ validateResources_plurals pxs sp [])
                        @ validateResources_plurals pys sp [])"
        unfolding validateResources_phases s a sr Inr p' by simp
      have 2: "validateResources B T sp sm =
                 Inr ((?o @ r @ r' @ validateResources_plurals pxs sp []) @ ?own
                        @ validateResources_plurals pys sp [])"
        unfolding validateResources_phases sr Inr p by simp
      show ?thesis unfolding 1 using 2 by (simp only: sum.case) blast
    qed
  qed
next
  assume h: "Plurals T = pxs @ pl # pys
        \<and> (\<forall>it \<in> set (plural_Items pl). validatePotentialPlaceholder (item_Value it) = None
                                          \<and> validateNewlineCharacters (item_Value it) = None)"
  let ?T' = "T\<lparr>Plurals := pxs @ pys\<rparr>"
  have s: "validateResources_strings (Strings B) ?T' sp sm []
             = validateResources_strings (Strings B) T sp sm []"
    by (rule strings_cong) simp
  have a: "validateResources_arrays (StringArrays B) ?T' sp sm []
             = validateResources_arrays (StringArrays B) T sp sm []"
    by (rule arrays_cong) simp
  have "validateResources_pluralItems (plural_Items pl) pl sp [] = []"
    using h by (simp add: pluralItems_clean)
  then have p: "validateResources_plurals (Plurals T) sp [] =
             validateResources_plurals (Plurals ?T') sp []"
    using h by (simp add: plurals_append plurals_Cons)
  show "validateResources B T sp sm = validateResources B ?T' sp sm"
    unfolding validateResources_phases s a p by (simp split: sum.splits)
qed

text \<open>
  C10, amended: when \<open>validateResources\<close> returns, there is no reverse-presence finding
  for string arrays and plurals. A string-array entry of the translated document whose
  name no base array has produces no finding of any kind (the result is the one without
  that entry). A plurals entry of the translated document produces, whether or not the
  base document has plurals of that name, exactly the findings of the single-value rules
  on its own item values, and so no finding when all its values pass both rules.
\<close>

theorem unmatched_arrays_silent_plurals_own_rules:
  assumes ret: "validateResources B T sp sm = Inr fs"
  shows "(StringArrays T = xs @ a # ys \<and> (\<forall>b \<in> set (StringArrays B). array_Name b \<noteq> array_Name a)
            \<longrightarrow> validateResources B (T\<lparr>StringArrays := xs @ ys\<rparr>) sp sm = Inr fs)
         \<and> (Plurals T = pxs @ pl # pys
            \<longrightarrow> (\<exists>pre post.
                   fs = pre @ concat (map (\<lambda>it. simpleFuncs_loop simpleValidationFuncs
                                                  (plural_Name pl) sp (item_Value it) [])
                                        (plural_Items pl)) @ post
                 \<and> validateResources B (T\<lparr>Plurals := pxs @ pys\<rparr>) sp sm = Inr (pre @ post)))
         \<and> (Plurals T = pxs @ pl # pys
              \<and> (\<forall>it \<in> set (plural_Items pl). validatePotentialPlaceholder (item_Value it) = None
                                                \<and> validateNewlineCharacters (item_Value it) = None)
            \<longrightarrow> validateResources B (T\<lparr>Plurals := pxs @ pys\<rparr>) sp sm = Inr fs)"
proof (intro conjI impI)
  note c = unmatched_entries_contribution [of T xs a ys B sp sm pxs pl pys]
  {
    assume "StringArrays T = xs @ a # ys \<and> (\<forall>b \<in> set (StringArrays B). array_Name b \<noteq> array_Name a)"
    with c have "validateResources B T sp sm = validateResources B (T\<lparr>StringArrays := xs @ ys\<rparr>) sp sm"
      by blast
    with ret show "validateResources B (T\<lparr>StringArrays := xs @ ys\<rparr>) sp sm = Inr fs" by simp
  }
  {
    assume h: "Plurals T = pxs @ pl # pys"
    show "\<exists>pre post.
             fs = pre @ concat (map (\<lambda>it. simpleFuncs_loop simpleValidationFuncs
                                            (plural_Name pl) sp (item_Value it) [])
                                  (plural_Items pl)) @ post
           \<and> validateResources B (T\<lparr>Plurals := pxs @ pys\<rparr>) sp sm = Inr (pre @ post)"
    proof (cases "validateResources B (T\<lparr>Plurals := pxs @ pys\<rparr>) sp sm")
      case (Inl p)
      with c h have "validateResources B T sp sm = Inl p" by simp
      with ret show ?thesis by simp
    next
      case (Inr fs')
      with c h obtain pre post where "fs' = pre @ post"
        and "validateResources B T sp sm =
               Inr (pre @ concat (map (\<lambda>it. simpleFuncs_loop simpleValidationFuncs
                                              (plural_Name pl) sp (item_Value it) [])
                                    (plural_Items pl)) @ post)"
        by auto
      with ret Inr show ?thesis by auto
    qed
  }
  {
    assume "Plurals T = pxs @ pl # pys
              \<and> (\<forall>it \<in> set (plural_Items pl). validatePotentialPlaceholder (item_Value it) = None
                                                \<and> validateNewlineCharacters (item_Value it) = None)"
    with c have "validateResources B T sp sm = validateResources B (T\<lparr>Plurals := pxs @ pys\<rparr>) sp sm"
      by blast
    with ret show "validateResources B (T\<lparr>Plurals := pxs @ pys\<rparr>) sp sm = Inr fs" by simp
  }
qed

theorem unmatched_arrays_silent_plurals_own_rules_witness:
  "validateResources exampleBase orphanDoc ''values-de/strings.xml'' False
     = Inr [ValidationError (''progress in values-de/strings.xml: Value '' @ quote @ ''% done''
              @ quote @ '' has a potential placeholder'')]
   \<and> validateResources exampleBase (orphanDoc\<lparr>StringArrays := [] @ []\<rparr>)
         ''values-de/strings.xml'' False
     = Inr [ValidationError (''progress in values-de/strings.xml: Value '' @ quote @ ''% done''
              @ quote @ '' has a potential placeholder'')]
   \<and> (\<exists>pre post.
         [ValidationError (''progress in values-de/strings.xml: Value '' @ quote @ ''% done''
              @ quote @ '' has a potential placeholder'')]
           = pre @ concat (map (\<lambda>it. simpleFuncs_loop simpleValidationFuncs ''progress''
                                       ''values-de/strings.xml'' (item_Value it) [])
                             [\<lparr>item_Quantity = ''one'', item_Value = ''% done''\<rparr>]) @ post
       \<and> validateResources exampleBase (orphanDoc\<lparr>Plurals := [] @ []\<rparr>)
             ''values-de/strings.xml'' False = Inr (pre @ post))"
proof -
  let ?a = "\<lparr>array_Name = ''sizes'', array_Items = [''S'', ''M'']\<rparr>"
  let ?pl = "\<lparr>plural_Name = ''progress'',
              plural_Items = [\<lparr>item_Quantity = ''one'', item_Value = ''% done''\<rparr>]\<rparr>"
  have ret: "validateResources exampleBase orphanDoc ''values-de/strings.xml'' False
     = Inr [ValidationError (''progress in values-de/strings.xml: Value '' @ quote @ ''% done''
              @ quote @ '' has a potential placeholder'')]"
    by code_simp
  have ha: "StringArrays orphanDoc = [] @ ?a # []
           \<and> (\<forall>b \<in> set (StringArrays exampleBase). array_Name b \<noteq> array_Name ?a)"
    by (simp add: orphanDoc_def exampleBase_def)
  have hp: "Plurals orphanDoc = [] @ ?pl # []"
    by (simp add: orphanDoc_def)
  note w = unmatched_arrays_silent_plurals_own_rules
             [OF ret, of "[]" ?a "[]" "[]" ?pl "[]"]
  from w ha have 1: "validateResources exampleBase (orphanDoc\<lparr>StringArrays := [] @ []\<rparr>)
         ''values-de/strings.xml'' False
     = Inr [ValidationError (''progress in values-de/strings.xml: Value '' @ quote @ ''% done''
              @ quote @ '' has a potential placeholder'')]"
    by blast
  from w hp have 2: "\<exists>pre post.
         [ValidationError (''progress in values-de/strings.xml: Value '' @ quote @ ''% done''
              @ quote @ '' has a potential placeholder'')]
           = pre @ concat (map (\<lambda>it. simpleFuncs_loop simpleValidationFuncs ''progress''
                                       ''values-de/strings.xml'' (item_Value it) [])
                             [\<lparr>item_Quantity = ''one'', item_Value = ''% done''\<rparr>]) @ post
       \<and> validateResources exampleBase (orphanDoc\<lparr>Plurals := [] @ []\<rparr>)
             ''values-de/strings.xml'' False = Inr (pre @ post)"
    by simp
  from ret 1 2 show ?thesis by blast
qed

text \<open>
  C2, as stated, gives zero findings for every base document validated against an
  identical copy. The single-value rules run on the values of the copy whatever the base
  document holds: the copy of a document with the string value \<open>50% off\<close> is reported.
\<close>

theorem identical_copy_flagged:
  "validateResources discountDoc discountDoc ''values-de/strings.xml'' False
     = Inr [ValidationError (''discount in values-de/strings.xml: Value '' @ quote @ ''50% off''
              @ quote @ '' has a potential placeholder'')]"
  by code_simp

text \<open>
  Names that occur twice break it too: the second entry is compared with the first one
  found under its name.
\<close>

lemma identical_copy_duplicate_names:
  "validateResources duplicateDoc duplicateDoc ''values-de/strings.xml'' False
     = Inr [ValidationError ''x in values-de/strings.xml: The target string placeholder #0 is %s, while it probably should be %d'']"
  by code_simp

text \<open>
  C2, amended: for every base document in which string entries of the same name have the
  same value, string-array entries of the same name have the same items, and every string
  value, array item and plural item value passes both single-value rules (no percent sign
  followed by whitespace, no newline), validating an identical copy against it returns
  zero findings, for both values of \<open>showMissing\<close>.
\<close>

theorem identical_copy_no_findings:
  assumes same_s: "\<forall>e \<in> set (Strings B). \<forall>e' \<in> set (Strings B).
                     string_Name e = string_Name e' \<longrightarrow> string_Value e = string_Value e'"
    and same_a: "\<forall>e \<in> set (StringArrays B). \<forall>e' \<in> set (StringArrays B).
                     array_Name e = array_Name e' \<longrightarrow> array_Items e = array_Items e'"
    and clean_s: "\<forall>e \<in> set (Strings B). passesSimpleRules (string_Value e)"
    and clean_a: "\<forall>e \<in> set (StringArrays B). \<forall>v \<in> set (array_Items e). passesSimpleRules v"
    and clean_p: "\<forall>pl \<in> set (Plurals B). \<forall>it \<in> set (plural_Items pl).
                     passesSimpleRules (item_Value it)"
  shows "validateResources B B sp showMissing = Inr []"
proof -
  have o: "validateResources_orphans (Strings B) B sp [] = []"
    by (rule orphans_none) (simp add: hasBaseValue_iff)
  have s: "validateResources_strings (Strings B) B sp showMissing [] = Inr []"
  proof (rule strings_same, rule ballI)
    fix b assume b: "b \<in> set (Strings B)"
    from findStringElement_loop_Some [OF b] obtain t where
      "findStringElement B (string_Name b) = Some t" "t \<in> set (Strings B)"
      "string_Name t = string_Name b"
      by (auto simp: findStringElement_def)
    then show "\<exists>t. findStringElement B (string_Name b) = Some t
                  \<and> string_Value t = string_Value b \<and> passesSimpleRules (string_Value t)"
      using same_s clean_s b by blast
  qed
  have a: "validateResources_arrays (StringArrays B) B sp showMissing [] = Inr []"
  proof (rule arrays_same, rule ballI)
    fix b assume b: "b \<in> set (StringArrays B)"
    from findStringArrayElement_loop_Some [OF b] obtain t where
      "findStringArrayElement B (array_Name b) = Some t" "t \<in> set (StringArrays B)"
      "array_Name t = array_Name b"
      by (auto simp: findStringArrayElement_def)
    then show "\<exists>t. findStringArrayElement B (array_Name b) = Some t
                  \<and> array_Items t = array_Items b
                  \<and> (\<forall>v \<in> set (array_Items b). passesSimpleRules v)"
      using same_a clean_a b by blast
  qed
  have p: "validateResources_plurals (Plurals B) sp [] = []"
    by (rule plurals_clean) (rule clean_p)
  show ?thesis unfolding validateResources_phases s a o p by simp
qed

theorem identical_copy_no_findings_witness:
  "validateResources exampleBase exampleBase ''values-de/strings.xml'' True = Inr []
   \<and> validateResources exampleBase exampleBase ''values-de/strings.xml'' False = Inr []"
proof -
  have c: "passesSimpleRules ''Hello %s''" "passesSimpleRules ''%d day''"
    "passesSimpleRules ''red''" "passesSimpleRules ''green''" "passesSimpleRules ''blue''"
    by code_simp+
  have same_s: "\<forall>e \<in> set (Strings exampleBase). \<forall>e' \<in> set (Strings exampleBase).
                     string_Name e = string_Name e' \<longrightarrow> string_Value e = string_Value e'"
    by (simp add: exampleBase_def)
  have same_a: "\<forall>e \<in> set (StringArrays exampleBase). \<forall>e' \<in> set (StringArrays exampleBase).
                     array_Name e = array_Name e' \<longrightarrow> array_Items e = array_Items e'"
    by (simp add: exampleBase_def)
  have clean_s: "\<forall>e \<in> set (Strings exampleBase). passesSimpleRules (string_Value e)"
    using c by (simp add: exampleBase_def)
  have clean_a: "\<forall>e \<in> set (StringArrays exampleBase). \<forall>v \<in> set (array_Items e).
                     passesSimpleRules v"
    using c by (simp add: exampleBase_def)
  have clean_p: "\<forall>pl \<in> set (Plurals exampleBase). \<forall>it \<in> set (plural_Items pl).
                     passesSimpleRules (item_Value it)"
    using c by (simp add: exampleBase_def)
  from identical_copy_no_findings [OF same_s same_a clean_s clean_a clean_p]
  show ?thesis by simp
qed

text \<open>
  C4, as stated, counts every absent base entry. The base plurals entry \<open>days\<close> is absent
  from the empty document and \<open>showMissing\<close> is true; the findings are those for the
  string and for the array, two for three absent entries.
\<close>

theorem absent_base_plural_not_reported:
  "map string_Name (Strings exampleBase) = [''hello'']
   \<and> map plural_Name (Plurals exampleBase) = [''days'']
   \<and> map array_Name (StringArrays exampleBase) = [''colors'']
   \<and> validateResources exampleBase emptyDoc ''values-de/strings.xml'' True
       = Inr [ResourceMissingError ''[missing] element named hello in values-de/strings.xml'',
              ResourceMissingError ''[missing] element named colors in values-de/strings.xml'']"
proof -
  have "validateResources exampleBase emptyDoc ''values-de/strings.xml'' True
       = Inr [ResourceMissingError ''[missing] element named hello in values-de/strings.xml'',
              ResourceMissingError ''[missing] element named colors in values-de/strings.xml'']"
    by code_simp
  then show ?thesis by (simp add: exampleBase_def)
qed

text \<open>
  C4, amended: when \<open>validateResources\<close> returns, then for every base string entry and
  every base string-array entry that the lookup does not find in the translated document
  the finding \<open>[missing] element named <name> in <shortPath>\<close> is among the results if
  and only if \<open>showMissing\<close> is true, and the number of \<open>ResourceMissingError\<close> findings
  is the number of absent base string entries plus the number of absent base string-array
  entries when \<open>showMissing\<close> is true, and zero otherwise. Base plurals entries are not
  counted: they never yield such a finding.
\<close>

theorem missing_resources_iff_showMissing:
  assumes "validateResources B T sp sm = Inr fs"
  shows "length (filter isMissing fs) =
           (if sm then length (filter (\<lambda>b. findStringElement T (string_Name b) = None) (Strings B))
                     + length (filter (\<lambda>b. findStringArrayElement T (array_Name b) = None)
                                 (StringArrays B))
            else 0)
         \<and> (\<forall>b \<in> set (Strings B). findStringElement T (string_Name b) = None
               \<longrightarrow> (missingError (string_Name b) sp \<in> set fs \<longleftrightarrow> sm))
         \<and> (\<forall>b \<in> set (StringArrays B). findStringArrayElement T (array_Name b) = None
               \<longrightarrow> (missingError (array_Name b) sp \<in> set fs \<longleftrightarrow> sm))"
proof (intro conjI ballI impI)
  note m = missing_validateResources [OF assms]
  show "length (filter isMissing fs) =
           (if sm then length (filter (\<lambda>b. findStringElement T (string_Name b) = None) (Strings B))
                     + length (filter (\<lambda>b. findStringArrayElement T (array_Name b) = None)
                                 (StringArrays B))
            else 0)"
    unfolding m by simp
  have mem: "e \<in> set fs \<and> isMissing e \<longleftrightarrow> e \<in> set (filter isMissing fs)" for e by simp
  {
    fix b assume b: "b \<in> set (Strings B)" "findStringElement T (string_Name b) = None"
    have "missingError (string_Name b) sp \<in> set (filter isMissing fs) \<longleftrightarrow> sm"
      unfolding m using b by auto
    then show "missingError (string_Name b) sp \<in> set fs \<longleftrightarrow> sm" by simp
  }
  {
    fix b assume b: "b \<in> set (StringArrays B)" "findStringArrayElement T (array_Name b) = None"
    have "missingError (array_Name b) sp \<in> set (filter isMissing fs) \<longleftrightarrow> sm"
      unfolding m using b by auto
    then show "missingError (array_Name b) sp \<in> set fs \<longleftrightarrow> sm" by simp
  }
qed

theorem missing_resources_iff_showMissing_witness:
  "validateResources exampleBase emptyDoc ''values-de/strings.xml'' True
       = Inr [ResourceMissingError ''[missing] element named hello in values-de/strings.xml'',
              ResourceMissingError ''[missing] element named colors in values-de/strings.xml'']
   \<and> length (filter isMissing
         [ResourceMissingError ''[missing] element named hello in values-de/strings.xml'',
          ResourceMissingError ''[missing] element named colors in values-de/strings.xml''])
       = length (filter (\<lambda>b. findStringElement emptyDoc (string_Name b) = None)
                   (Strings exampleBase))
         + length (filter (\<lambda>b. findStringArrayElement emptyDoc (array_Name b) = None)
                     (StringArrays exampleBase))"
proof -
  have h: "validateResources exampleBase emptyDoc ''values-de/strings.xml'' True
       = Inr [ResourceMissingError ''[missing] element named hello in values-de/strings.xml'',
              ResourceMissingError ''[missing] element named colors in values-de/strings.xml'']"
    by code_simp
  from missing_resources_iff_showMissing [OF h] h show ?thesis by simp
qed

section \<open>Claims about Validate\<close>

text \<open>
  C8: when parsing the base document fails, \<open>Validate\<close> returns the list holding exactly
  that error, and the only access to the file system it has made is the read of the base
  file: no glob, no read of a translated file.
\<close>

theorem Validate_base_parse_failure:
  assumes "fst (parseResources e resDir baseLocale stringsFilename []) = Inl err"
  shows "Validate e resDir baseLocale stringsFilename showMissing =
           (Inr [err], [ReadFileCall (Join e [resDir, valuesDir baseLocale, stringsFilename])])"
proof -
  have "snd (parseResources e resDir baseLocale stringsFilename [])
          = [ReadFileCall (Join e [resDir, valuesDir baseLocale, stringsFilename])]"
    by (simp add: parseResources_def parseResourcesFile_def Let_def split: sum.splits)
  with assms have "parseResources e resDir baseLocale stringsFilename [] =
         (Inl err, [ReadFileCall (Join e [resDir, valuesDir baseLocale, stringsFilename])])"
    by (metis prod.collapse)
  then show ?thesis by (simp add: Validate_def)
qed


theorem Validate_base_parse_failure_witness:
  "fst (parseResources failingEnv ''res'' ''en'' ''strings.xml'' [])
       = Inl (LibraryError ''open res/values-en/strings.xml: no such file or directory'')
   \<and> Validate failingEnv ''res'' ''en'' ''strings.xml'' True =
       (Inr [LibraryError ''open res/values-en/strings.xml: no such file or directory''],
        [ReadFileCall ''res/values-en/strings.xml''])"
proof -
  have h: "fst (parseResources failingEnv ''res'' ''en'' ''strings.xml'' [])
       = Inl (LibraryError ''open res/values-en/strings.xml: no such file or directory'')"
    by (simp add: parseResources_def parseResourcesFile_def failingEnv_def valuesDir_def)
  have j: "Join failingEnv [''res'', valuesDir ''en'', ''strings.xml''] = ''res/values-en/strings.xml''"
    by (simp add: failingEnv_def valuesDir_def)
  from Validate_base_parse_failure [OF h, of True] h show ?thesis by (simp add: j)
qed

end
